theory Spec2Isabelle
  imports Main
begin

section \<open>Strings\<close>

text \<open>
  JavaScript strings are modelled as \<^typ>\<open>string\<close>. The case mapping is the one of the
  ASCII letters, which is all that the keyword tests of the program look at: every keyword
  is a lower-case ASCII text. Numbers are integers; the program's numbers that are not
  integers (NaN, fractions) are outside the model.
\<close>

definition lowerChar :: "char \<Rightarrow> char" where
  "lowerChar c =
     (case map_of (zip ''ABCDEFGHIJKLMNOPQRSTUVWXYZ'' ''abcdefghijklmnopqrstuvwxyz'') c of
        Some l \<Rightarrow> l
      | None \<Rightarrow> c)"

definition toLowerCase :: "string \<Rightarrow> string" where
  "toLowerCase s = map lowerChar s"

fun startsWith :: "string \<Rightarrow> string \<Rightarrow> bool" where
  "startsWith s [] = True"
| "startsWith [] (k # ks) = False"
| "startsWith (c # cs) (k # ks) = (c = k \<and> startsWith cs ks)"

text \<open>\<open>s.includes(k)\<close>: the text \<open>k\<close> occurs somewhere in \<open>s\<close>.\<close>

fun includesStr :: "string \<Rightarrow> string \<Rightarrow> bool" where
  "includesStr [] k = (k = [])"
| "includesStr (c # cs) k = (startsWith (c # cs) k \<or> includesStr cs k)"

definition digitChar :: "nat \<Rightarrow> char" where
  "digitChar n = ''0123456789'' ! n"

text \<open>The decimal numeral of a number, as a template literal prints it.\<close>

fun showNat :: "nat \<Rightarrow> string" where
  "showNat n = (if n < 10 then [digitChar n] else showNat (n div 10) @ [digitChar (n mod 10)])"

declare showNat.simps [simp del]

definition showInt :: "int \<Rightarrow> string" where
  "showInt i = (if i < 0 then ''-'' @ showNat (nat (- i)) else showNat (nat i))"


section \<open>The progress tracker\<close>

text \<open>
  The state of a \<open>ProgressTracker\<close> is its field \<open>progress\<close>: the list \<open>completed\<close> of
  image ids, the list \<open>failed\<close> of failure records and the time stamp \<open>startedAt\<close>.
  The field \<open>id\<close> of an image definition is \<open>img_id\<close> here and the field \<open>id\<close> of a failure
  record is \<open>f_id\<close>. The method \<open>save\<close> writes the state to the progress file and catches
  every error of the write, so it neither changes \<open>progress\<close> nor raises; it has no
  counterpart in the model. The clock \<open>new Date().toISOString()\<close> is the argument \<open>now\<close>.
\<close>

record ImageDefinition =
  img_id :: string
  title :: string
  aspect_ratio :: string
  prompt :: string

record FailedRecord =
  f_id :: string
  attempts :: int
  lastError :: string
  lastAttempt :: string

record Progress =
  completed :: "string list"
  failed :: "FailedRecord list"
  startedAt :: string

record ProgressStats =
  stats_completed :: nat
  stats_failed :: nat
  stats_startedAt :: string

definition isCompleted :: "Progress \<Rightarrow> string \<Rightarrow> bool" where
  "isCompleted p imageId = (imageId \<in> set (completed p))"

definition markCompleted :: "Progress \<Rightarrow> string \<Rightarrow> Progress" where
  "markCompleted p imageId =
     (if \<not> imageId \<in> set (completed p)
      then p\<lparr>completed := completed p @ [imageId]\<rparr>
      else p)"

text \<open>
  \<open>existing\<close> is the first record that \<open>find\<close> returns; the assignments to its fields change
  that record inside the list \<open>failed\<close>.
\<close>

fun updateFirst :: "('a \<Rightarrow> bool) \<Rightarrow> ('a \<Rightarrow> 'a) \<Rightarrow> 'a list \<Rightarrow> 'a list" where
  "updateFirst P f [] = []"
| "updateFirst P f (x # xs) = (if P x then f x # xs else x # updateFirst P f xs)"

definition markFailed :: "Progress \<Rightarrow> string \<Rightarrow> string \<Rightarrow> string \<Rightarrow> Progress" where
  "markFailed p imageId error now =
     (case find (\<lambda>f. f_id f = imageId) (failed p) of
        Some existing \<Rightarrow>
          p\<lparr>failed :=
              updateFirst (\<lambda>f. f_id f = imageId)
                (\<lambda>ex. ex\<lparr>attempts := attempts ex + 1, lastError := error, lastAttempt := now\<rparr>)
                (failed p)\<rparr>
      | None \<Rightarrow>
          p\<lparr>failed := failed p @
              [\<lparr>f_id = imageId, attempts = 1, lastError = error, lastAttempt = now\<rparr>]\<rparr>)"

text \<open>\<open>record?.attempts || 0\<close>: a missing record and a count of zero both give 0.\<close>

definition getFailedAttempts :: "Progress \<Rightarrow> string \<Rightarrow> int" where
  "getFailedAttempts p imageId =
     (case find (\<lambda>f. f_id f = imageId) (failed p) of
        None \<Rightarrow> 0
      | Some r \<Rightarrow> (if attempts r = 0 then 0 else attempts r))"

text \<open>The parameter \<open>maxRetries\<close> is \<open>None\<close> when the caller leaves it out; its default is 3.\<close>

definition getRemaining :: "Progress \<Rightarrow> ImageDefinition list \<Rightarrow> int option \<Rightarrow> ImageDefinition list" where
  "getRemaining p allImages maxRetries =
     (let k = (case maxRetries of None \<Rightarrow> 3 | Some m \<Rightarrow> m)
      in filter (\<lambda>img.
           if isCompleted p (img_id img) then False
           else if getFailedAttempts p (img_id img) \<ge> k then False
           else True) allImages)"

definition getStats :: "Progress \<Rightarrow> ProgressStats" where
  "getStats p =
     \<lparr>stats_completed = length (completed p),
      stats_failed = length (failed p),
      stats_startedAt = startedAt p\<rparr>"

definition clear :: "string \<Rightarrow> Progress" where
  "clear now = \<lparr>completed = [], failed = [], startedAt = now\<rparr>"

text \<open>
  The failure records read as a map from ids to attempt counts (the first record of an id
  is the one that \<open>find\<close> sees), and the count that such a map gives an id.
\<close>

definition attemptsMap :: "Progress \<Rightarrow> string \<rightharpoonup> int" where
  "attemptsMap p = map_of (map (\<lambda>r. (f_id r, attempts r)) (failed p))"

definition attemptsOf :: "(string \<rightharpoonup> int) \<Rightarrow> string \<Rightarrow> int" where
  "attemptsOf F i = (case F i of None \<Rightarrow> 0 | Some a \<Rightarrow> a)"


section \<open>Errors and their classification\<close>

text \<open>
  A value caught by \<open>catch (err)\<close> is read only through \<open>err.message\<close>, which may be
  missing. The error classes of the program are records of the fields \<open>name\<close>, \<open>message\<close>,
  \<open>code\<close> and \<open>imageId\<close> (the last set by \<open>GenerationError\<close> only); the fields \<open>hint\<close> and
  \<open>docsSection\<close> are fixed texts of each class that no function here reads, and are left
  out. A constructor argument that the caller may leave out is an \<open>option\<close>.
\<close>

record JsError =
  err_message :: "string option"

record GobananaError =
  name :: string
  message :: string
  code :: "string option"
  imageId :: "string option"

definition newGobananaError :: "string \<Rightarrow> string option \<Rightarrow> GobananaError" where
  "newGobananaError m c = \<lparr>name = ''GobananaError'', message = m, code = c, imageId = None\<rparr>"

definition newApiKeyError :: "string option \<Rightarrow> GobananaError" where
  "newApiKeyError m =
     \<lparr>name = ''ApiKeyError'',
      message = (case m of None \<Rightarrow> ''API key is missing or invalid''
                 | Some t \<Rightarrow> if t = [] then ''API key is missing or invalid'' else t),
      code = Some ''API_KEY_ERROR'', imageId = None\<rparr>"

definition newRateLimitError :: "string option \<Rightarrow> GobananaError" where
  "newRateLimitError m =
     \<lparr>name = ''RateLimitError'',
      message = (case m of None \<Rightarrow> ''API rate limit exceeded''
                 | Some t \<Rightarrow> if t = [] then ''API rate limit exceeded'' else t),
      code = Some ''RATE_LIMIT'', imageId = None\<rparr>"

definition newConfigError :: "string \<Rightarrow> GobananaError" where
  "newConfigError m =
     \<lparr>name = ''ConfigError'', message = m, code = Some ''CONFIG_ERROR'', imageId = None\<rparr>"

definition newGenerationError :: "string \<Rightarrow> string option \<Rightarrow> GobananaError" where
  "newGenerationError m i =
     \<lparr>name = ''GenerationError'', message = m, code = Some ''GENERATION_ERROR'', imageId = i\<rparr>"

text \<open>A thrown object of the program's classes, as a \<open>catch\<close> sees it.\<close>

definition thrownOf :: "GobananaError \<Rightarrow> JsError" where
  "thrownOf g = \<lparr>err_message = Some (message g)\<rparr>"

text \<open>\<open>err.message?.toLowerCase() || ''\<close>, the first line of the two functions below.\<close>

definition lowerMessage :: "JsError \<Rightarrow> string" where
  "lowerMessage err =
     (case err_message err of
        None \<Rightarrow> []
      | Some m \<Rightarrow> if toLowerCase m = [] then [] else toLowerCase m)"

definition parseApiError :: "JsError \<Rightarrow> string option \<Rightarrow> GobananaError" where
  "parseApiError err imgId =
     (let msg = lowerMessage err in
      if includesStr msg ''api key'' \<or> includesStr msg ''401'' \<or> includesStr msg ''unauthorized''
      then newApiKeyError (Some ''Invalid or expired API key'')
      else if includesStr msg ''rate limit'' \<or> includesStr msg ''429'' \<or> includesStr msg ''quota''
      then newRateLimitError
             (Some ''API rate limit exceeded. The request will be retried automatically.'')
      else if includesStr msg ''safety'' \<or> includesStr msg ''blocked'' \<or> includesStr msg ''harmful''
      then newGenerationError
             (''Content was blocked by safety filters. Try adjusting your prompt to be less ''
              @ ''specific or remove potentially problematic content.'') imgId
      else if includesStr msg ''invalid'' \<or> includesStr msg ''400''
      then newConfigError (''Invalid request: ''
             @ (case err_message err of None \<Rightarrow> ''undefined'' | Some m \<Rightarrow> m))
      else if includesStr msg ''503'' \<or> includesStr msg ''500'' \<or> includesStr msg ''server''
      then newGobananaError ''Google API server error. This is temporary - please retry.''
             (Some ''SERVER_ERROR'')
      else if includesStr msg ''timeout'' \<or> includesStr msg ''timed out''
      then newGobananaError ''Request timed out'' (Some ''TIMEOUT'')
      else newGenerationError
             (case err_message err of
                None \<Rightarrow> ''Unknown error occurred''
              | Some m \<Rightarrow> if m = [] then ''Unknown error occurred'' else m) imgId)"

definition isRetryable :: "JsError \<Rightarrow> bool" where
  "isRetryable err =
     (let msg = lowerMessage err in
      includesStr msg ''rate limit'' \<or> includesStr msg ''429'' \<or> includesStr msg ''503''
      \<or> includesStr msg ''timeout'' \<or> includesStr msg ''temporarily'')"

text \<open>
  The classification as the specification words it: an ordered list of keyword rules, the
  first rule with a keyword in the lower-cased message wins, and the fallback applies when
  no rule has one. \<open>errorOfRule\<close> is the error that each rule stands for.
\<close>

datatype Rule = Auth | RateLimit | Safety | Malformed | Server | Timeout | Fallback

definition keywordRules :: "(string list \<times> Rule) list" where
  "keywordRules =
     [([''api key'', ''401'', ''unauthorized''], Auth),
      ([''rate limit'', ''429'', ''quota''], RateLimit),
      ([''safety'', ''blocked'', ''harmful''], Safety),
      ([''invalid'', ''400''], Malformed),
      ([''503'', ''500'', ''server''], Server),
      ([''timeout'', ''timed out''], Timeout)]"

definition matchesRule :: "string \<Rightarrow> string list \<times> Rule \<Rightarrow> bool" where
  "matchesRule msg r = list_ex (includesStr msg) (fst r)"

definition firstMatch :: "string \<Rightarrow> Rule" where
  "firstMatch msg =
     (case find (matchesRule msg) keywordRules of
        Some r \<Rightarrow> snd r
      | None \<Rightarrow> Fallback)"

fun errorOfRule :: "Rule \<Rightarrow> string \<Rightarrow> string option \<Rightarrow> GobananaError" where
  "errorOfRule Auth raw i = newApiKeyError (Some ''Invalid or expired API key'')"
| "errorOfRule RateLimit raw i =
     newRateLimitError (Some ''API rate limit exceeded. The request will be retried automatically.'')"
| "errorOfRule Safety raw i =
     newGenerationError
       (''Content was blocked by safety filters. Try adjusting your prompt to be less ''
        @ ''specific or remove potentially problematic content.'') i"
| "errorOfRule Malformed raw i = newConfigError (''Invalid request: '' @ raw)"
| "errorOfRule Server raw i =
     newGobananaError ''Google API server error. This is temporary - please retry.''
       (Some ''SERVER_ERROR'')"
| "errorOfRule Timeout raw i = newGobananaError ''Request timed out'' (Some ''TIMEOUT'')"
| "errorOfRule Fallback raw i = newGenerationError raw i"

text \<open>The rules whose errors the specification calls retryable.\<close>

fun retryableRule :: "Rule \<Rightarrow> bool" where
  "retryableRule RateLimit = True"
| "retryableRule Server = True"
| "retryableRule Timeout = True"
| "retryableRule r = False"


section \<open>The single-request executor\<close>

text \<open>
  The remote service is a parameter: \<open>remote n\<close> is what the call of attempt \<open>n\<close> does, a
  thrown error or a response. A response is the list \<open>candidates[0].content.parts\<close>, or
  \<open>None\<close> when the response has no such list; a part may carry \<open>inlineData\<close> (its data)
  and a text. The prompt, the aspect ratio and the reference images only make up the
  request that is sent, so they are arguments of the service and not of this model. What
  the executor does besides returning is a list of events: the messages given to the
  progress callback, the sleeps, the remote calls and the files written.

  A callback is \<open>None\<close> when it is not supplied. A supplied callback is the function from
  its argument to what the call does: \<open>None\<close> when it returns, \<open>Some e\<close> when it throws
  \<open>e\<close>. Writing the image happens inside the \<open>try\<close> of the executor and is taken to
  succeed. The names of the output file come from \<open>generateFilename\<close> and \<open>path.join\<close>,
  parameters of the configuration. The field \<open>unlinkProgressFile\<close> of the configuration
  is what removing the progress file does when \<open>clear\<close> asks for it (\<open>fs.existsSync\<close> and
  \<open>fs.unlinkSync\<close>): \<open>None\<close> when there is no file or the file is removed, \<open>Some e\<close> when
  the file system throws \<open>e\<close>.
\<close>

definition RETRY_DELAYS :: "nat list" where
  "RETRY_DELAYS = [1000, 2000, 4000]"

datatype Event = Progress string | Sleep nat | ApiCall nat | WriteFile string string

record Part =
  inlineData :: "string option"
  part_text :: "string option"

type_synonym Response = "Part list option"

record GenerationResult =
  success :: bool
  filepath :: string
  res_imageId :: string
  filename :: string

record Config =
  outputDir :: string
  generateFilename :: "ImageDefinition \<Rightarrow> string"
  pathJoin :: "string \<Rightarrow> string \<Rightarrow> string"
  unlinkProgressFile :: "JsError option"

text \<open>\<open>cb?.(m)\<close>: the event of the call, and the error if the callback throws.\<close>

definition notify :: "(string \<Rightarrow> JsError option) option \<Rightarrow> string \<Rightarrow> Event list \<times> JsError option" where
  "notify cb m = (case cb of None \<Rightarrow> ([], None) | Some f \<Rightarrow> ([Progress m], f m))"

text \<open>\<open>if (part.text)\<close>: the part has a text and the text is not empty.\<close>

definition hasText :: "Part \<Rightarrow> bool" where
  "hasText part = (case part_text part of None \<Rightarrow> False | Some t \<Rightarrow> t \<noteq> [])"

definition processResponse ::
    "Config \<Rightarrow> Response \<Rightarrow> ImageDefinition \<Rightarrow> Event list \<times> (GobananaError + GenerationResult)" where
  "processResponse cfg response img =
     (case response of
        None \<Rightarrow>
          ([], Inl (newGenerationError
             ''Invalid response structure from API. The model may not support image generation.''
             (Some (img_id img))))
      | Some parts \<Rightarrow>
          (case find (\<lambda>part. inlineData part \<noteq> None) parts of
             Some part \<Rightarrow>
               (let fname = generateFilename cfg img;
                    fpath = pathJoin cfg (outputDir cfg) fname
                in ([WriteFile fpath (case inlineData part of None \<Rightarrow> [] | Some d \<Rightarrow> d)],
                    Inr \<lparr>success = True, filepath = fpath, res_imageId = img_id img,
                         filename = fname\<rparr>))
           | None \<Rightarrow>
               (case find hasText parts of
                  Some part \<Rightarrow>
                    (let txt = take 200 (case part_text part of None \<Rightarrow> [] | Some t \<Rightarrow> t) in
                     if includesStr (toLowerCase txt) ''cannot''
                        \<or> includesStr (toLowerCase txt) ''sorry''
                     then ([], Inl (newGenerationError
                            (''Content blocked: '' @ txt
                             @ ''. Try simplifying your prompt or removing specific brand references.'')
                            (Some (img_id img))))
                     else ([], Inl (newGenerationError
                            (''API returned text instead of image: '' @ txt)
                            (Some (img_id img)))))
                | None \<Rightarrow>
                    ([], Inl (newGenerationError
                       ''No image data in response. The prompt may be too complex.''
                       (Some (img_id img)))))))"

text \<open>
  The part of the \<open>try\<close> after the optional sleep: the remote call, then
  \<open>processResponse\<close>. Both may throw into the same \<open>catch\<close>.
\<close>

definition tryBody ::
    "Config \<Rightarrow> (nat \<Rightarrow> JsError + Response) \<Rightarrow> ImageDefinition \<Rightarrow> nat
      \<Rightarrow> Event list \<times> (JsError + GenerationResult)" where
  "tryBody cfg remote img attempt =
     (case remote attempt of
        Inl err \<Rightarrow> ([ApiCall attempt], Inl err)
      | Inr response \<Rightarrow>
          (case processResponse cfg response img of
             (evs, Inl g) \<Rightarrow> (ApiCall attempt # evs, Inl (thrownOf g))
           | (evs, Inr result) \<Rightarrow> (ApiCall attempt # evs, Inr result)))"

text \<open>
  \<open>if (attempt > 0) { onProgress?.(...); await this.sleep(...) }\<close>, the start of the
  \<open>try\<close>: its events, and the error if the callback throws (then there is no sleep). An
  index outside \<open>RETRY_DELAYS\<close> would read \<open>undefined\<close>, a sleep of no time.
\<close>

definition beforeRetry ::
    "(string \<Rightarrow> JsError option) option \<Rightarrow> nat \<Rightarrow> Event list \<times> JsError option" where
  "beforeRetry cb attempt =
     (if attempt > 0
      then (case notify cb (''Retry attempt '' @ showNat attempt @ ''/''
                            @ showNat (length RETRY_DELAYS) @ ''...'') of
              (evs, Some err) \<Rightarrow> (evs, Some err)
            | (evs, None) \<Rightarrow>
                (evs @ [Sleep (if attempt - 1 < length RETRY_DELAYS
                               then RETRY_DELAYS ! (attempt - 1) else 0)], None))
      else ([], None))"

text \<open>The whole \<open>try\<close> block of one iteration: what it does and how it ends.\<close>

definition tryBlock ::
    "Config \<Rightarrow> (nat \<Rightarrow> JsError + Response) \<Rightarrow> ImageDefinition
      \<Rightarrow> (string \<Rightarrow> JsError option) option \<Rightarrow> nat
      \<Rightarrow> Event list \<times> (JsError + GenerationResult)" where
  "tryBlock cfg remote img cb attempt =
     (case beforeRetry cb attempt of
        (evs0, Some err) \<Rightarrow> (evs0, Inl err)
      | (evs0, None) \<Rightarrow>
          (case tryBody cfg remote img attempt of
             (evs, out) \<Rightarrow> (evs0 @ evs, out)))"

text \<open>
  The loop \<open>for (attempt = 0; attempt <= RETRY_DELAYS.length; attempt++)\<close>, from the
  iteration \<open>attempt\<close> on, with the events so far. The loop is entered with \<open>attempt = 0\<close>
  and \<open>continue\<close> is reached only when \<open>attempt < RETRY_DELAYS.length\<close>, so the test of
  the \<open>for\<close> never fails: the loop is left by \<open>return\<close> or by \<open>break\<close>, and \<open>throw lastError\<close>
  after the loop throws the error that the last \<open>catch\<close> assigned.
\<close>

function attemptLoop ::
    "Config \<Rightarrow> (nat \<Rightarrow> JsError + Response) \<Rightarrow> ImageDefinition
      \<Rightarrow> (string \<Rightarrow> JsError option) option
      \<Rightarrow> nat \<Rightarrow> Event list \<Rightarrow> Event list \<times> (GobananaError + GenerationResult)" where
  "attemptLoop cfg remote img cb attempt trace =
     (case tryBlock cfg remote img cb attempt of
        (evs, Inr result) \<Rightarrow> (trace @ evs, Inr result)
      | (evs, Inl err) \<Rightarrow>
          (let lastError = parseApiError err (Some (img_id img)) in
           if isRetryable err \<and> attempt < length RETRY_DELAYS
           then attemptLoop cfg remote img cb (attempt + 1) (trace @ evs)
           else (trace @ evs, Inl lastError)))"
  by pat_completeness auto
termination
  by (relation "measure (\<lambda>(cfg, remote, img, cb, attempt, trace). length RETRY_DELAYS - attempt)")
     auto

declare attemptLoop.simps [simp del]

definition generateImage ::
    "Config \<Rightarrow> (nat \<Rightarrow> JsError + Response) \<Rightarrow> ImageDefinition
      \<Rightarrow> (string \<Rightarrow> JsError option) option
      \<Rightarrow> Event list \<times> (GobananaError + GenerationResult)" where
  "generateImage cfg remote img cb = attemptLoop cfg remote img cb 0 []"

text \<open>The remote calls among the events.\<close>

fun isApiCall :: "Event \<Rightarrow> bool" where
  "isApiCall (ApiCall n) = True"
| "isApiCall e = False"


section \<open>The batch orchestrator\<close>

text \<open>
  \<open>array.slice(start, fin)\<close> on integers: a negative index counts from the end, and both
  indices are clamped to the array.
\<close>

definition slice :: "'a list \<Rightarrow> int \<Rightarrow> int \<Rightarrow> 'a list" where
  "slice array start fin =
     (let len = int (length array);
          k = (if start < 0 then max (len + start) 0 else min start len);
          final = (if fin < 0 then max (len + fin) 0 else min fin len)
      in take (nat (final - k)) (drop (nat k) array))"

text \<open>
  The loop of \<open>chunkArray\<close>, from index \<open>i\<close> on, with the chunks pushed so far. The loop
  need not end (\<open>i += size\<close> with a \<open>size\<close> that is not positive), so its result is an
  \<open>option\<close>: \<open>None\<close> is the run that never returns.
\<close>

partial_function (option) chunkLoop ::
    "'a list \<Rightarrow> int \<Rightarrow> int \<Rightarrow> 'a list list \<Rightarrow> 'a list list option" where
  "chunkLoop array sz i chunks =
     (if i < int (length array)
      then chunkLoop array sz (i + sz) (chunks @ [slice array i (i + sz)])
      else Some chunks)"

declare chunkLoop.simps [code]

definition chunkArray :: "'a list \<Rightarrow> int \<Rightarrow> 'a list list option" where
  "chunkArray array sz = chunkLoop array sz 0 []"

text \<open>
  The options of \<open>generateBatch\<close>. \<open>concurrency\<close> is \<open>None\<close> when it is left out (the
  default is 5). The callbacks \<open>onProgress\<close> and \<open>onImageStart\<close> and the collector
  \<open>getReferenceImages\<close> are \<open>None\<close> when they are left out; each may throw, and
  \<open>getReferenceImages\<close> otherwise returns the list of paths.
\<close>

record BatchOptions =
  freshStart :: bool
  concurrency :: "int option"
  onProgress :: "(string \<Rightarrow> JsError option) option"
  onImageStart :: "(ImageDefinition \<Rightarrow> int \<Rightarrow> nat \<Rightarrow> JsError option) option"
  getReferenceImages :: "(ImageDefinition \<Rightarrow> JsError + string list) option"

text \<open>\<open>onProgress?.(m)\<close> and \<open>onImageStart?.(image, current, total)\<close>: the error thrown, if any.\<close>

definition callProgress :: "BatchOptions \<Rightarrow> string \<Rightarrow> JsError option" where
  "callProgress opts m = (case onProgress opts of None \<Rightarrow> None | Some f \<Rightarrow> f m)"

definition callImageStart :: "BatchOptions \<Rightarrow> ImageDefinition \<Rightarrow> int \<Rightarrow> nat \<Rightarrow> JsError option" where
  "callImageStart opts img current nTotal =
     (case onImageStart opts of None \<Rightarrow> None | Some f \<Rightarrow> f img current nTotal)"

text \<open>
  The summary: \<open>successful\<close>, \<open>failed\<close> (here \<open>failedImages\<close>, the pairs of \<open>imageId\<close> and
  \<open>error\<close>) and \<open>skipped\<close>.
\<close>

record BatchResults =
  successful :: "GenerationResult list"
  failedImages :: "(string \<times> string) list"
  skipped :: int

text \<open>What the function mapped over a chunk resolves to.\<close>

datatype ChunkResult = Succeeded GenerationResult | Failed string string

text \<open>
  \<open>err.message\<close> in the \<open>catch\<close> of \<open>generateBatch\<close>, as the template literal prints it: an
  error without a message gives the text \<open>undefined\<close>, which here also stands for the
  missing value that \<open>markFailed\<close> and the summary then receive.
\<close>

definition messageOf :: "JsError \<Rightarrow> string" where
  "messageOf err = (case err_message err of None \<Rightarrow> ''undefined'' | Some m \<Rightarrow> m)"

text \<open>
  The loop that collects the reference images of the remaining requests, from the
  request number \<open>i\<close> on, and the whole \<open>if (getReferenceImages) { ... }\<close> around it.
\<close>

fun collectRefs ::
    "BatchOptions \<Rightarrow> (ImageDefinition \<Rightarrow> JsError + string list) \<Rightarrow> nat \<Rightarrow> int
      \<Rightarrow> ImageDefinition list \<Rightarrow> (string \<rightharpoonup> string list)
      \<Rightarrow> JsError + (string \<rightharpoonup> string list)" where
  "collectRefs opts g nTotal i [] m = Inr m"
| "collectRefs opts g nTotal i (img # rest) m =
     (case callImageStart opts img i nTotal of
        Some e \<Rightarrow> Inl e
      | None \<Rightarrow>
          (case g img of
             Inl e \<Rightarrow> Inl e
           | Inr refs \<Rightarrow> collectRefs opts g nTotal (i + 1) rest (m(img_id img \<mapsto> refs))))"

definition collectedRefs ::
    "BatchOptions \<Rightarrow> ImageDefinition list \<Rightarrow> JsError + (string \<rightharpoonup> string list)" where
  "collectedRefs opts remaining =
     (case getReferenceImages opts of
        None \<Rightarrow> Inr Map.empty
      | Some g \<Rightarrow>
          (case callProgress opts ''Collecting reference images for all pending images...'' of
             Some e \<Rightarrow> Inl e
           | None \<Rightarrow>
               (case collectRefs opts g (length remaining) 1 remaining Map.empty of
                  Inl e \<Rightarrow> Inl e
                | Inr m \<Rightarrow>
                    (case callProgress opts
                            ''Reference images collected. Starting parallel generation...'' of
                       Some e \<Rightarrow> Inl e
                     | None \<Rightarrow> Inr m))))"

text \<open>
  The remote service of a batch: \<open>api g img refs n\<close> is what the call of attempt \<open>n\<close> does
  for the request \<open>img\<close> that is number \<open>g\<close> of the run (its \<open>globalIndex\<close>), sent with the
  reference images \<open>refs\<close>. \<open>executeRequest\<close> is the call of \<open>generateImage\<close> in the \<open>try\<close> of
  the function mapped over a chunk, and its outcome.
\<close>

definition executeRequest ::
    "Config \<Rightarrow> (int \<Rightarrow> ImageDefinition \<Rightarrow> string list \<Rightarrow> nat \<Rightarrow> JsError + Response)
      \<Rightarrow> BatchOptions \<Rightarrow> (string \<rightharpoonup> string list) \<Rightarrow> int \<Rightarrow> ImageDefinition
      \<Rightarrow> GobananaError + GenerationResult" where
  "executeRequest cfg api opts imageRefMap globalIndex img =
     (let referenceImages = (case imageRefMap (img_id img) of None \<Rightarrow> [] | Some refs \<Rightarrow> refs)
      in snd (generateImage cfg (api globalIndex img referenceImages) img
                (Some (\<lambda>msg. callProgress opts (''['' @ img_id img @ ''] '' @ msg)))))"

text \<open>
  The \<open>catch\<close> of the function mapped over a chunk: it records the failure, and the
  promise is rejected when \<open>onProgress\<close> throws there. \<open>now g\<close> is the clock when request
  \<open>g\<close> fails.
\<close>

definition catchRequest ::
    "(int \<Rightarrow> string) \<Rightarrow> BatchOptions \<Rightarrow> Progress \<Rightarrow> int \<Rightarrow> ImageDefinition \<Rightarrow> JsError
      \<Rightarrow> Progress \<times> (JsError + ChunkResult)" where
  "catchRequest now opts p globalIndex img err =
     (let p1 = markFailed p (img_id img) (messageOf err) (now globalIndex) in
      case callProgress opts (''Failed: '' @ img_id img @ '' - '' @ messageOf err) of
        Some e \<Rightarrow> (p1, Inl e)
      | None \<Rightarrow> (p1, Inr (Failed (img_id img) (messageOf err))))"

text \<open>
  The function mapped over a chunk, for one request: the tracker afterwards, and the
  entry that the promise resolves to or the error that rejects it. \<open>onImageStart\<close> is called
  before the \<open>try\<close>; an error thrown by \<open>onProgress\<close> after \<open>markCompleted\<close> is caught by
  the \<open>catch\<close> of the same request. The requests of a chunk run concurrently and reach
  the tracker in the order in which they finish; the model lets them reach it in the
  order of the chunk, which is the order in which \<open>Promise.all\<close> returns their entries. So
  the order of the ids in \<open>completed\<close> and of the records in \<open>failed\<close> is that of one of the
  possible runs; the entries of the summary, the set of completed ids and the attempts
  of each id are the same in all of them.
\<close>

definition runImage ::
    "Config \<Rightarrow> (int \<Rightarrow> ImageDefinition \<Rightarrow> string list \<Rightarrow> nat \<Rightarrow> JsError + Response)
      \<Rightarrow> (int \<Rightarrow> string) \<Rightarrow> BatchOptions \<Rightarrow> (string \<rightharpoonup> string list) \<Rightarrow> nat
      \<Rightarrow> Progress \<Rightarrow> int \<Rightarrow> ImageDefinition \<Rightarrow> Progress \<times> (JsError + ChunkResult)" where
  "runImage cfg api now opts imageRefMap nTotal p globalIndex img =
     (case callImageStart opts img globalIndex nTotal of
        Some e \<Rightarrow> (p, Inl e)
      | None \<Rightarrow>
          (case executeRequest cfg api opts imageRefMap globalIndex img of
             Inr result \<Rightarrow>
               (let p1 = markCompleted p (img_id img) in
                case callProgress opts (''Completed: '' @ img_id img) of
                  None \<Rightarrow> (p1, Inr (Succeeded result))
                | Some e \<Rightarrow> catchRequest now opts p1 globalIndex img e)
           | Inl err \<Rightarrow> catchRequest now opts p globalIndex img (thrownOf err)))"

text \<open>
  \<open>chunk.map\<close>: every request of the chunk is started and settles, whatever the others
  do. The first argument \<open>g\<close> is the \<open>globalIndex\<close> of the head of the list.
\<close>

fun runChunk ::
    "Config \<Rightarrow> (int \<Rightarrow> ImageDefinition \<Rightarrow> string list \<Rightarrow> nat \<Rightarrow> JsError + Response)
      \<Rightarrow> (int \<Rightarrow> string) \<Rightarrow> BatchOptions \<Rightarrow> (string \<rightharpoonup> string list) \<Rightarrow> nat
      \<Rightarrow> int \<Rightarrow> ImageDefinition list \<Rightarrow> Progress
      \<Rightarrow> Progress \<times> (JsError + ChunkResult) list" where
  "runChunk cfg api now opts imageRefMap nTotal g [] p = (p, [])"
| "runChunk cfg api now opts imageRefMap nTotal g (img # rest) p =
     (case runImage cfg api now opts imageRefMap nTotal p g img of
        (p1, res) \<Rightarrow>
          (case runChunk cfg api now opts imageRefMap nTotal (g + 1) rest p1 of
             (p2, ress) \<Rightarrow> (p2, res # ress)))"

text \<open>
  \<open>await Promise.all(promises)\<close>: the entries in the order of the promises, or the error
  of a rejected promise (the first one in that order).
\<close>

fun promiseAll :: "('e + 'a) list \<Rightarrow> 'e + 'a list" where
  "promiseAll [] = Inr []"
| "promiseAll (Inl e # rest) = Inl e"
| "promiseAll (Inr x # rest) =
     (case promiseAll rest of Inl e \<Rightarrow> Inl e | Inr xs \<Rightarrow> Inr (x # xs))"

text \<open>The loop \<open>for (const res of chunkResults)\<close>.\<close>

fun pushResults :: "BatchResults \<Rightarrow> ChunkResult list \<Rightarrow> BatchResults" where
  "pushResults results [] = results"
| "pushResults results (Succeeded r # rest) =
     pushResults (results\<lparr>successful := successful results @ [r]\<rparr>) rest"
| "pushResults results (Failed i e # rest) =
     pushResults (results\<lparr>failedImages := failedImages results @ [(i, e)]\<rparr>) rest"

text \<open>
  The loop over the chunks, from the chunk of index \<open>chunkIndex\<close> on; \<open>nChunks\<close> is
  \<open>chunks.length\<close>. It ends with the summary, or with the error thrown by \<open>onProgress\<close> or
  by \<open>Promise.all\<close>.
\<close>

fun runChunks ::
    "Config \<Rightarrow> (int \<Rightarrow> ImageDefinition \<Rightarrow> string list \<Rightarrow> nat \<Rightarrow> JsError + Response)
      \<Rightarrow> (int \<Rightarrow> string) \<Rightarrow> BatchOptions \<Rightarrow> (string \<rightharpoonup> string list) \<Rightarrow> nat
      \<Rightarrow> int \<Rightarrow> nat \<Rightarrow> int \<Rightarrow> ImageDefinition list list \<Rightarrow> Progress \<times> BatchResults
      \<Rightarrow> Progress \<times> (JsError + BatchResults)" where
  "runChunks cfg api now opts imageRefMap nTotal conc nChunks chunkIndex [] st =
     (fst st, Inr (snd st))"
| "runChunks cfg api now opts imageRefMap nTotal conc nChunks chunkIndex (chunk # rest) st =
     (let chunkStart = chunkIndex * conc in
      case callProgress opts
             (''Processing batch '' @ showInt (chunkIndex + 1) @ ''/'' @ showNat nChunks
              @ '' ('' @ showNat (length chunk) @ '' images)...'') of
        Some e \<Rightarrow> (fst st, Inl e)
      | None \<Rightarrow>
          (case runChunk cfg api now opts imageRefMap nTotal (chunkStart + 1) chunk (fst st) of
             (p1, outs) \<Rightarrow>
               (case promiseAll outs of
                  Inl e \<Rightarrow> (p1, Inl e)
                | Inr chunkResults \<Rightarrow>
                    runChunks cfg api now opts imageRefMap nTotal conc nChunks (chunkIndex + 1) rest
                      (p1, pushResults (snd st) chunkResults))))"

text \<open>
  \<open>generateBatch\<close> from the tracker state \<open>p\<close>. The result is \<open>None\<close> when the call never
  returns; otherwise it is the tracker state, once the requests that were started have
  settled, with either the error that the call throws or the summary that it returns.
  \<open>now 0\<close> is the clock of \<open>clear\<close>, which resets the state and then removes the progress
  file.
\<close>

definition generateBatch ::
    "Config \<Rightarrow> (int \<Rightarrow> ImageDefinition \<Rightarrow> string list \<Rightarrow> nat \<Rightarrow> JsError + Response)
      \<Rightarrow> (int \<Rightarrow> string) \<Rightarrow> Progress \<Rightarrow> ImageDefinition list \<Rightarrow> BatchOptions
      \<Rightarrow> (Progress \<times> (JsError + BatchResults)) option" where
  "generateBatch cfg api now p images opts =
     (let conc = (case concurrency opts of None \<Rightarrow> 5 | Some c \<Rightarrow> c);
          p1 = (if freshStart opts then clear (now 0) else p)
      in case (if freshStart opts then unlinkProgressFile cfg else None) of
           Some e \<Rightarrow> Some (p1, Inl e)
         | None \<Rightarrow>
             (let remaining = getRemaining p1 images None;
                  results = \<lparr>successful = [], failedImages = [],
                             skipped = int (length images) - int (length remaining)\<rparr>
              in case callProgress opts
                        (''Processing '' @ showNat (length remaining) @ '' images (''
                         @ showInt (skipped results) @ '' already completed)'') of
                   Some e \<Rightarrow> Some (p1, Inl e)
                 | None \<Rightarrow>
                     (case collectedRefs opts remaining of
                        Inl e \<Rightarrow> Some (p1, Inl e)
                      | Inr imageRefMap \<Rightarrow>
                          (case chunkArray remaining conc of
                             None \<Rightarrow> None
                           | Some chunks \<Rightarrow>
                               Some (runChunks cfg api now opts imageRefMap (length remaining)
                                       conc (length chunks) 0 chunks (p1, results))))))"

text \<open>
  For the statements about a batch: the tracker state that the run starts from, the
  requests that it still has to process, the entries of the remaining requests in their
  order when no callback throws (\<open>requestResults\<close>, the head of the list being request
  number \<open>g\<close>), and the successes and the failures among entries.
\<close>

definition startState :: "(int \<Rightarrow> string) \<Rightarrow> Progress \<Rightarrow> BatchOptions \<Rightarrow> Progress" where
  "startState now p opts = (if freshStart opts then clear (now 0) else p)"

definition pending :: "(int \<Rightarrow> string) \<Rightarrow> Progress \<Rightarrow> ImageDefinition list \<Rightarrow> BatchOptions \<Rightarrow> ImageDefinition list" where
  "pending now p images opts = getRemaining (startState now p opts) images None"

definition entryOf :: "ImageDefinition \<Rightarrow> GobananaError + GenerationResult \<Rightarrow> ChunkResult" where
  "entryOf img out =
     (case out of Inr result \<Rightarrow> Succeeded result | Inl err \<Rightarrow> Failed (img_id img) (message err))"

fun requestResults ::
    "Config \<Rightarrow> (int \<Rightarrow> ImageDefinition \<Rightarrow> string list \<Rightarrow> nat \<Rightarrow> JsError + Response)
      \<Rightarrow> BatchOptions \<Rightarrow> (string \<rightharpoonup> string list) \<Rightarrow> int \<Rightarrow> ImageDefinition list
      \<Rightarrow> ChunkResult list" where
  "requestResults cfg api opts imageRefMap g [] = []"
| "requestResults cfg api opts imageRefMap g (img # rest) =
     entryOf img (executeRequest cfg api opts imageRefMap g img)
       # requestResults cfg api opts imageRefMap (g + 1) rest"

fun successesOf :: "ChunkResult list \<Rightarrow> GenerationResult list" where
  "successesOf [] = []"
| "successesOf (Succeeded r # rest) = r # successesOf rest"
| "successesOf (Failed i e # rest) = successesOf rest"

fun failuresOf :: "ChunkResult list \<Rightarrow> (string \<times> string) list" where
  "failuresOf [] = []"
| "failuresOf (Succeeded r # rest) = failuresOf rest"
| "failuresOf (Failed i e # rest) = (i, e) # failuresOf rest"

text \<open>The contiguous groups of at most \<open>n\<close> elements of a list, for a positive \<open>n\<close>.\<close>

function chunksOf :: "nat \<Rightarrow> 'a list \<Rightarrow> 'a list list" where
  "chunksOf n xs = (if n = 0 \<or> xs = [] then [] else take n xs # chunksOf n (drop n xs))"
  by pat_completeness auto
termination
  by (relation "measure (\<lambda>(n, xs). length xs)") auto

declare chunksOf.simps [simp del]

text \<open>
  A response with an image in it, and the result that \<open>processResponse\<close> returns for an
  image.
\<close>

definition returnsImage :: "Response \<Rightarrow> bool" where
  "returnsImage response =
     (case response of None \<Rightarrow> False | Some parts \<Rightarrow> list_ex (\<lambda>part. inlineData part \<noteq> None) parts)"

definition resultFor :: "Config \<Rightarrow> ImageDefinition \<Rightarrow> GenerationResult" where
  "resultFor cfg img =
     \<lparr>success = True, filepath = pathJoin cfg (outputDir cfg) (generateFilename cfg img),
      res_imageId = img_id img, filename = generateFilename cfg img\<rparr>"


section \<open>Example data\<close>

text \<open>
  A configuration (\<open>path.join\<close> of a directory and a file name that need no
  normalising), one whose progress file cannot be removed, three requests, the options
  of a call without options, a remote service that always returns an image, one that
  always rejects the API key and two that always answer with a server error, a clock,
  and callbacks and a collector of reference images that throw (one of the callbacks
  only when it is told of a completed request).
\<close>

definition exampleConfig :: Config where
  "exampleConfig =
     \<lparr>outputDir = ''output'', generateFilename = (\<lambda>i. img_id i @ ''.png''),
      pathJoin = (\<lambda>d f. d @ ''/'' @ f), unlinkProgressFile = None\<rparr>"

definition lockedConfig :: Config where
  "lockedConfig =
     exampleConfig\<lparr>unlinkProgressFile :=
       Some \<lparr>err_message = Some ''EPERM: operation not permitted, unlink''\<rparr>\<rparr>"

definition imageA :: ImageDefinition where
  "imageA = \<lparr>img_id = ''a'', title = ''A'', aspect_ratio = ''16:9'', prompt = ''first''\<rparr>"

definition imageB :: ImageDefinition where
  "imageB = \<lparr>img_id = ''b'', title = ''B'', aspect_ratio = ''16:9'', prompt = ''second''\<rparr>"

definition imageC :: ImageDefinition where
  "imageC = \<lparr>img_id = ''c'', title = ''C'', aspect_ratio = ''16:9'', prompt = ''third''\<rparr>"

definition defaultOptions :: BatchOptions where
  "defaultOptions =
     \<lparr>freshStart = False, concurrency = None, onProgress = None, onImageStart = None,
      getReferenceImages = None\<rparr>"

definition alwaysImage :: "int \<Rightarrow> ImageDefinition \<Rightarrow> string list \<Rightarrow> nat \<Rightarrow> JsError + Response" where
  "alwaysImage g img refs n = Inr (Some [\<lparr>inlineData = Some ''iVBORw0KGgo='', part_text = None\<rparr>])"

definition fixedClock :: "int \<Rightarrow> string" where
  "fixedClock g = ''2025-01-01T00:00:00.000Z''"

definition abortedCollector :: "ImageDefinition \<Rightarrow> JsError + string list" where
  "abortedCollector img = Inl \<lparr>err_message = Some ''User force closed the prompt''\<rparr>"

definition brokenProgress :: "string \<Rightarrow> JsError option" where
  "brokenProgress m = Some \<lparr>err_message = Some ''write EPIPE''\<rparr>"

definition brokenImageStart :: "ImageDefinition \<Rightarrow> int \<Rightarrow> nat \<Rightarrow> JsError option" where
  "brokenImageStart img current nTotal = Some \<lparr>err_message = Some ''write EPIPE''\<rparr>"

definition quietProgress :: "string \<Rightarrow> JsError option" where
  "quietProgress m = None"

definition failsOnCompleted :: "string \<Rightarrow> JsError option" where
  "failsOnCompleted m =
     (if startsWith m ''Completed: '' then Some \<lparr>err_message = Some ''write EPIPE''\<rparr> else None)"

definition alwaysUnauthorized :: "int \<Rightarrow> ImageDefinition \<Rightarrow> string list \<Rightarrow> nat \<Rightarrow> JsError + Response" where
  "alwaysUnauthorized g img refs n = Inl \<lparr>err_message = Some ''401 Unauthorized''\<rparr>"

definition alwaysServerError :: "nat \<Rightarrow> JsError + Response" where
  "alwaysServerError n = Inl \<lparr>err_message = Some ''500 Internal Server Error''\<rparr>"

definition alwaysUnavailable :: "nat \<Rightarrow> JsError + Response" where
  "alwaysUnavailable n = Inl \<lparr>err_message = Some ''503 Service Unavailable''\<rparr>"


section \<open>Facts about the progress tracker\<close>

lemma find_updateFirst_same:
  assumes "\<And>x. Q (f x) = Q x"
  shows "find Q (updateFirst Q f xs) = map_option f (find Q xs)"
  using assms by (induction xs) auto

lemma find_updateFirst_other:
  assumes "\<And>x. Q (f x) = Q x" and "\<And>x. P x \<Longrightarrow> \<not> Q x"
  shows "find Q (updateFirst P f xs) = find Q xs"
  using assms by (induction xs) auto

lemma find_snoc:
  "find Q (xs @ [y]) = (case find Q xs of Some x \<Rightarrow> Some x | None \<Rightarrow> if Q y then Some y else None)"
  by (induction xs) auto

lemma length_updateFirst: "length (updateFirst P f xs) = length xs"
  by (induction xs) auto

lemma getFailedAttempts_markFailed:
  "getFailedAttempts (markFailed p i e t) j = getFailedAttempts p j + (if i = j then 1 else 0)"
proof (cases "find (\<lambda>f. f_id f = i) (failed p)")
  case None
  then show ?thesis
    by (auto simp: getFailedAttempts_def markFailed_def find_snoc split: option.splits)
next
  case (Some r)
  show ?thesis
  proof (cases "i = j")
    case True
    then show ?thesis
      using Some by (simp add: getFailedAttempts_def markFailed_def find_updateFirst_same)
  next
    case False
    then have "find (\<lambda>f. f_id f = j) (updateFirst (\<lambda>f. f_id f = i)
        (\<lambda>ex. ex\<lparr>attempts := attempts ex + 1, lastError := e, lastAttempt := t\<rparr>) (failed p))
      = find (\<lambda>f. f_id f = j) (failed p)"
      by (intro find_updateFirst_other) auto
    then show ?thesis
      using Some False by (simp add: getFailedAttempts_def markFailed_def)
  qed
qed

lemma failed_markCompleted: "failed (markCompleted p i) = failed p"
  by (simp add: markCompleted_def)

lemma getFailedAttempts_markCompleted:
  "getFailedAttempts (markCompleted p i) j = getFailedAttempts p j"
  by (simp add: getFailedAttempts_def failed_markCompleted)

lemma getFailedAttempts_no_record:
  "find (\<lambda>f. f_id f = i) (failed p) = None \<Longrightarrow> getFailedAttempts p i = 0"
  by (simp add: getFailedAttempts_def)


lemma find_markFailed_same:
  "find (\<lambda>f. f_id f = i) (failed (markFailed p i e t)) =
     Some (case find (\<lambda>f. f_id f = i) (failed p) of
             None \<Rightarrow> \<lparr>f_id = i, attempts = 1, lastError = e, lastAttempt = t\<rparr>
           | Some r \<Rightarrow> r\<lparr>attempts := attempts r + 1, lastError := e, lastAttempt := t\<rparr>)"
  by (cases "find (\<lambda>f. f_id f = i) (failed p)")
     (simp_all add: markFailed_def find_snoc find_updateFirst_same)

lemma length_failed_markFailed:
  "length (failed (markFailed p i e t)) =
     (case find (\<lambda>f. f_id f = i) (failed p) of
        None \<Rightarrow> Suc (length (failed p))
      | Some r \<Rightarrow> length (failed p))"
  by (simp add: markFailed_def length_updateFirst split: option.splits)

lemma completed_markFailed: "completed (markFailed p i e t) = completed p"
  by (simp add: markFailed_def split: option.splits)

lemma attemptsOf_attemptsMap: "attemptsOf (attemptsMap p) i = getFailedAttempts p i"
proof -
  have m: "map_of (map (\<lambda>r. (f_id r, attempts r)) rs) i =
          map_option attempts (find (\<lambda>f. f_id f = i) rs)" for rs
    by (induction rs) auto
  show ?thesis
    by (simp add: attemptsOf_def attemptsMap_def getFailedAttempts_def m split: option.splits)
qed

lemma getRemaining_filter:
  "getRemaining p R (Some k) =
     filter (\<lambda>r. img_id r \<notin> set (completed p) \<and> getFailedAttempts p (img_id r) < k) R"
  unfolding getRemaining_def isCompleted_def
  by (auto intro!: filter_cong)



section \<open>Facts about the classification and the executor\<close>

lemma lowerMessage_Some: "lowerMessage \<lparr>err_message = Some m\<rparr> = toLowerCase m"
  by (simp add: lowerMessage_def)

lemma lowerMessage_None: "lowerMessage \<lparr>err_message = None\<rparr> = []"
  by (simp add: lowerMessage_def)

lemma parseApiError_rules:
  "parseApiError err i =
     errorOfRule (firstMatch (lowerMessage err))
       (case firstMatch (lowerMessage err) of
          Fallback \<Rightarrow>
            (case err_message err of
               None \<Rightarrow> ''Unknown error occurred''
             | Some m \<Rightarrow> if m = [] then ''Unknown error occurred'' else m)
        | _ \<Rightarrow> (case err_message err of None \<Rightarrow> ''undefined'' | Some m \<Rightarrow> m)) i"
  by (simp add: parseApiError_def firstMatch_def keywordRules_def matchesRule_def Let_def)

lemma firstMatch_Nil: "firstMatch [] = Fallback"
  by (simp add: firstMatch_def keywordRules_def matchesRule_def)

lemma tryBody_fail: "remote n = Inl e \<Longrightarrow> tryBody cfg remote img n = ([ApiCall n], Inl e)"
  by (simp add: tryBody_def)

lemma beforeRetry_0: "beforeRetry cb 0 = ([], None)"
  by (simp add: beforeRetry_def)

lemma tryBlock_0: "tryBlock cfg remote img cb 0 = tryBody cfg remote img 0"
  by (simp add: tryBlock_def beforeRetry_0)

lemma tryBlock_fail:
  assumes "remote n = Inl e" and "snd (beforeRetry cb n) = None"
  shows "tryBlock cfg remote img cb n = (fst (beforeRetry cb n) @ [ApiCall n], Inl e)"
  using assms by (cases "beforeRetry cb n") (simp add: tryBlock_def tryBody_fail)

lemma attemptLoop_retry:
  assumes "remote n = Inl e" and "isRetryable e" and "n < length RETRY_DELAYS"
    and "snd (beforeRetry cb n) = None"
  shows "attemptLoop cfg remote img cb n tr =
           attemptLoop cfg remote img cb (n + 1) (tr @ fst (beforeRetry cb n) @ [ApiCall n])"
  using assms by (subst attemptLoop.simps) (simp add: tryBlock_fail)

lemma attemptLoop_stop:
  assumes "remote n = Inl e" and "\<not> (isRetryable e \<and> n < length RETRY_DELAYS)"
    and "snd (beforeRetry cb n) = None"
  shows "attemptLoop cfg remote img cb n tr =
           (tr @ fst (beforeRetry cb n) @ [ApiCall n],
            Inl (parseApiError e (Some (img_id img))))"
  using assms by (subst attemptLoop.simps) (auto simp add: tryBlock_fail)

lemma generateImage_not_retryable:
  assumes "remote 0 = Inl e" and "\<not> isRetryable e"
  shows "generateImage cfg remote img cb =
           ([ApiCall 0], Inl (parseApiError e (Some (img_id img))))"
  using attemptLoop_stop [of remote 0 e cb cfg img "[]"] assms
  by (simp add: generateImage_def beforeRetry_0)

lemma beforeRetry_quiet:
  assumes "\<And>m. snd (notify cb m) = None"
  shows "beforeRetry cb (Suc 0) = (fst (notify cb ''Retry attempt 1/3...'') @ [Sleep 1000], None)"
    and "beforeRetry cb (Suc (Suc 0)) =
           (fst (notify cb ''Retry attempt 2/3...'') @ [Sleep 2000], None)"
    and "beforeRetry cb (Suc (Suc (Suc 0))) =
           (fst (notify cb ''Retry attempt 3/3...'') @ [Sleep 4000], None)"
proof -
  have q: "\<exists>evs. notify cb m = (evs, None)" for m
    using assms [of m] by (cases "notify cb m") simp
  from q [of "''Retry attempt 1/3...''"] obtain e1
    where e1: "notify cb ''Retry attempt 1/3...'' = (e1, None)" ..
  from q [of "''Retry attempt 2/3...''"] obtain e2
    where e2: "notify cb ''Retry attempt 2/3...'' = (e2, None)" ..
  from q [of "''Retry attempt 3/3...''"] obtain e3
    where e3: "notify cb ''Retry attempt 3/3...'' = (e3, None)" ..
  show "beforeRetry cb (Suc 0) = (fst (notify cb ''Retry attempt 1/3...'') @ [Sleep 1000], None)"
    by (simp add: beforeRetry_def RETRY_DELAYS_def showNat.simps digitChar_def e1)
  show "beforeRetry cb (Suc (Suc 0)) =
           (fst (notify cb ''Retry attempt 2/3...'') @ [Sleep 2000], None)"
    by (simp add: beforeRetry_def RETRY_DELAYS_def showNat.simps digitChar_def e2)
  show "beforeRetry cb (Suc (Suc (Suc 0))) =
           (fst (notify cb ''Retry attempt 3/3...'') @ [Sleep 4000], None)"
    by (simp add: beforeRetry_def RETRY_DELAYS_def showNat.simps digitChar_def e3)
qed

text \<open>
  The schedule of the retries, when every call throws an error that \<open>isRetryable\<close>
  accepts and the progress callback does not throw.
\<close>

lemma retry_schedule:
  assumes fails: "\<And>n. remote n = Inl (errs n)"
    and retryable: "\<And>n. isRetryable (errs n)"
    and quiet: "\<And>m. snd (notify cb m) = None"
  shows "generateImage cfg remote img cb =
          ([ApiCall 0]
           @ fst (notify cb ''Retry attempt 1/3...'') @ [Sleep 1000, ApiCall 1]
           @ fst (notify cb ''Retry attempt 2/3...'') @ [Sleep 2000, ApiCall 2]
           @ fst (notify cb ''Retry attempt 3/3...'') @ [Sleep 4000, ApiCall 3],
           Inl (parseApiError (errs 3) (Some (img_id img))))"
proof -
  note br = beforeRetry_0 beforeRetry_quiet [OF quiet]
  have len: "length RETRY_DELAYS = 3" by (simp add: RETRY_DELAYS_def)
  have q: "snd (beforeRetry cb n) = None" if "n \<le> 3" for n
  proof -
    from that have "n = 0 \<or> n = Suc 0 \<or> n = Suc (Suc 0) \<or> n = Suc (Suc (Suc 0))"
      by arith
    then show ?thesis by (auto simp: br)
  qed
  have step: "attemptLoop cfg remote img cb n tr =
      attemptLoop cfg remote img cb (Suc n) (tr @ fst (beforeRetry cb n) @ [ApiCall n])"
    if "n < 3" for n tr
    using that attemptLoop_retry [of remote n "errs n" cb] fails retryable len q [of n] by simp
  have stop: "attemptLoop cfg remote img cb (Suc (Suc (Suc 0))) tr =
      (tr @ fst (beforeRetry cb (Suc (Suc (Suc 0)))) @ [ApiCall 3],
       Inl (parseApiError (errs 3) (Some (img_id img))))"
    for tr
    using attemptLoop_stop [of remote 3 "errs 3" cb] fails len q [of 3]
    by (simp add: eval_nat_numeral)
  show ?thesis
    by (simp add: generateImage_def step stop br eval_nat_numeral)
qed

lemma retry_schedule_example:
  "generateImage exampleConfig alwaysUnavailable imageB (Some quietProgress) =
   ([ApiCall 0,
     Progress ''Retry attempt 1/3...'', Sleep 1000, ApiCall 1,
     Progress ''Retry attempt 2/3...'', Sleep 2000, ApiCall 2,
     Progress ''Retry attempt 3/3...'', Sleep 4000, ApiCall 3],
    Inl (newGobananaError ''Google API server error. This is temporary - please retry.''
           (Some ''SERVER_ERROR'')))"
proof -
  have r: "isRetryable \<lparr>err_message = Some ''503 Service Unavailable''\<rparr>"
    by (simp add: isRetryable_def lowerMessage_def toLowerCase_def lowerChar_def)
  have c: "parseApiError \<lparr>err_message = Some ''503 Service Unavailable''\<rparr> i =
      newGobananaError ''Google API server error. This is temporary - please retry.''
           (Some ''SERVER_ERROR'')" for i
    by (simp add: parseApiError_def lowerMessage_def toLowerCase_def lowerChar_def)
  have q: "snd (notify (Some quietProgress) m) = None" for m
    by (simp add: notify_def quietProgress_def)
  show ?thesis
    using retry_schedule [of alwaysUnavailable
        "\<lambda>n. \<lparr>err_message = Some ''503 Service Unavailable''\<rparr>" "Some quietProgress"
        exampleConfig imageB] r q
    by (simp add: alwaysUnavailable_def c notify_def)
qed


section \<open>Facts about the chunks\<close>

lemma slice_chunk:
  assumes "0 < sz" and "i \<le> length a"
  shows "slice a (int i) (int i + sz) = take (nat sz) (drop i a)"
proof -
  have k: "min (int i) (int (length a)) = int i"
    using assms by simp
  have "take (nat (min (int i + sz) (int (length a)) - int i)) (drop i a) = take (nat sz) (drop i a)"
  proof (cases "int i + sz \<le> int (length a)")
    case True
    then show ?thesis by simp
  next
    case False
    then have "length (drop i a) \<le> nat (int (length a) - int i)"
      and "length (drop i a) \<le> nat sz"
      by auto
    then show ?thesis using False by (simp add: min_def)
  qed
  then show ?thesis
    using assms by (simp add: slice_def Let_def k)
qed


lemma chunksOf_Nil: "chunksOf n [] = []"
  by (simp add: chunksOf.simps)

lemma chunksOf_step:
  "0 < n \<Longrightarrow> xs \<noteq> [] \<Longrightarrow> chunksOf n xs = take n xs # chunksOf n (drop n xs)"
  by (subst chunksOf.simps) simp

lemma chunkLoop_chunksOf:
  assumes "0 < sz"
  shows "chunkLoop a sz (int i) cs = Some (cs @ chunksOf (nat sz) (drop i a))"
proof (induction "length a - i" arbitrary: i cs rule: less_induct)
  case less
  show ?case
  proof (cases "i < length a")
    case True
    have n: "0 < nat sz" using assms by simp
    have ne: "drop i a \<noteq> []" using True by simp
    have idx: "int i + sz = int (i + nat sz)" using assms by simp
    have sl: "slice a (int i) (int i + sz) = take (nat sz) (drop i a)"
      using assms True by (intro slice_chunk) simp_all
    have "chunkLoop a sz (int i) cs =
        chunkLoop a sz (int i + sz) (cs @ [slice a (int i) (int i + sz)])"
      using True by (subst chunkLoop.simps) simp
    also have "\<dots> = chunkLoop a sz (int (i + nat sz)) (cs @ [take (nat sz) (drop i a)])"
      by (subst sl) (simp only: idx)
    also have "\<dots> = Some ((cs @ [take (nat sz) (drop i a)])
        @ chunksOf (nat sz) (drop (i + nat sz) a))"
    proof (rule less)
      show "length a - (i + nat sz) < length a - i"
        using True n by simp
    qed
    also have "\<dots> = Some (cs @ chunksOf (nat sz) (drop i a))"
      by (simp add: chunksOf_step [OF n ne] add.commute)
    finally show ?thesis .
  next
    case False
    then have "drop i a = []" by simp
    moreover have "chunkLoop a sz (int i) cs = Some cs"
      using False by (subst chunkLoop.simps) simp
    ultimately show ?thesis
      by (simp add: chunksOf_Nil)
  qed
qed

lemma chunkArray_pos: "0 < sz \<Longrightarrow> chunkArray a sz = Some (chunksOf (nat sz) a)"
  using chunkLoop_chunksOf [of sz a 0 "[]"] by (simp add: chunkArray_def)

lemma chunkLoop_diverges:
  assumes "chunkLoop a sz i cs = Some r"
  shows "\<not> (sz \<le> 0 \<and> i < int (length a))"
  using assms
proof (rule chunkLoop.raw_induct [rotated])
  fix f :: "'a list \<Rightarrow> int \<Rightarrow> int \<Rightarrow> 'a list list \<Rightarrow> 'a list list option"
    and array sz i chunks r
  assume IH: "\<And>array sz i chunks r. f array sz i chunks = Some r \<Longrightarrow>
      \<not> (sz \<le> 0 \<and> i < int (length array))"
    and eq: "(if i < int (length array)
      then f array sz (i + sz) (chunks @ [slice array i (i + sz)]) else Some chunks) = Some r"
  show "\<not> (sz \<le> 0 \<and> i < int (length array))"
  proof
    assume a: "sz \<le> 0 \<and> i < int (length array)"
    then have "f array sz (i + sz) (chunks @ [slice array i (i + sz)]) = Some r"
      using eq by simp
    from IH [OF this] a show False by simp
  qed
qed

lemma chunkArray_nonpos: "sz \<le> 0 \<Longrightarrow> a \<noteq> [] \<Longrightarrow> chunkArray a sz = None"
  using chunkLoop_diverges [of a sz 0 "[]"]
  by (cases "chunkArray a sz") (auto simp: chunkArray_def)

lemma chunkArray_Nil: "chunkArray [] sz = Some []"
  by (simp add: chunkArray_def chunkLoop.simps)

lemma concat_chunksOf: "0 < n \<Longrightarrow> concat (chunksOf n xs) = xs"
proof (induction n xs rule: chunksOf.induct)
  case (1 n xs)
  then show ?case
    by (cases "xs = []") (simp_all add: chunksOf_Nil chunksOf_step)
qed

lemma chunksOf_sizes:
  "0 < n \<Longrightarrow> c \<in> set (chunksOf n xs) \<Longrightarrow> c \<noteq> [] \<and> length c \<le> n"
proof (induction n xs rule: chunksOf.induct)
  case (1 n xs)
  then show ?case
    by (cases "xs = []") (auto simp: chunksOf_Nil chunksOf_step)
qed

lemma chunksOf_full:
  "0 < n \<Longrightarrow> c \<in> set (butlast (chunksOf n xs)) \<Longrightarrow> length c = n"
proof (induction n xs rule: chunksOf.induct)
  case (1 n xs)
  show ?case
  proof (cases "xs = []")
    case True
    with 1 show ?thesis by (simp add: chunksOf_Nil)
  next
    case False
    note step = chunksOf_step [OF "1.prems"(1) False]
    show ?thesis
    proof (cases "drop n xs = []")
      case True
      with 1 step show ?thesis by (simp add: chunksOf_Nil)
    next
      case ne: False
      then have "chunksOf n (drop n xs) \<noteq> []"
        using "1.prems"(1) by (simp add: chunksOf_step)
      with 1 step False ne show ?thesis by auto
    qed
  qed
qed



section \<open>Facts about the batch\<close>

lemma messageOf_thrownOf: "messageOf (thrownOf g) = message g"
  by (simp add: messageOf_def thrownOf_def)

lemma failuresOf_append: "failuresOf (xs @ ys) = failuresOf xs @ failuresOf ys"
  by (induction xs rule: failuresOf.induct) simp_all

lemma successesOf_append: "successesOf (xs @ ys) = successesOf xs @ successesOf ys"
  by (induction xs rule: successesOf.induct) simp_all

lemma length_successes_failures:
  "length (successesOf rs) + length (failuresOf rs) = length rs"
  by (induction rs rule: successesOf.induct) simp_all

lemma pushResults_eq:
  "pushResults r rs =
     r\<lparr>successful := successful r @ successesOf rs,
       failedImages := failedImages r @ failuresOf rs\<rparr>"
  by (induction r rs rule: pushResults.induct) simp_all

lemma pushResults_append: "pushResults (pushResults r xs) ys = pushResults r (xs @ ys)"
  by (simp add: pushResults_eq successesOf_append failuresOf_append)

lemma pushResults_counts:
  "skipped (pushResults r rs) = skipped r
   \<and> length (successful (pushResults r rs)) + length (failedImages (pushResults r rs)) =
       length (successful r) + length (failedImages r) + length rs"
  using length_successes_failures [of rs] by (simp add: pushResults_eq)

lemma promiseAll_length: "promiseAll outs = Inr xs \<Longrightarrow> length xs = length outs"
proof (induction outs arbitrary: xs)
  case Nil
  then show ?case by simp
next
  case (Cons out outs)
  then show ?case
    by (cases out; cases "promiseAll outs") auto
qed

lemma promiseAll_map_Inr: "promiseAll (map Inr xs) = Inr xs"
  by (induction xs) simp_all

lemma runChunk_Cons:
  "runChunk cfg api now opts m tot g (x # xs) p =
     (fst (runChunk cfg api now opts m tot (g + 1) xs (fst (runImage cfg api now opts m tot p g x))),
      snd (runImage cfg api now opts m tot p g x)
        # snd (runChunk cfg api now opts m tot (g + 1) xs
                 (fst (runImage cfg api now opts m tot p g x))))"
  by (simp add: case_prod_unfold)

lemma length_runChunk: "length (snd (runChunk cfg api now opts m tot g xs p)) = length xs"
proof (induction xs arbitrary: g p)
  case Nil
  show ?case by simp
next
  case (Cons x xs)
  show ?case
    by (simp only: runChunk_Cons snd_conv list.size Cons.IH)
qed

lemma fst_runChunk_append:
  "fst (runChunk cfg api now opts m tot g (xs @ ys) p) =
     fst (runChunk cfg api now opts m tot (g + int (length xs)) ys
            (fst (runChunk cfg api now opts m tot g xs p)))"
proof (induction xs arbitrary: g p)
  case Nil
  show ?case by simp
next
  case (Cons x xs)
  have "g + 1 + int (length xs) = g + int (length (x # xs))" by simp
  then show ?case
    using Cons.IH [of "g + 1" "fst (runImage cfg api now opts m tot p g x)"]
    by (simp only: append_Cons runChunk_Cons fst_conv)
qed

text \<open>Every summary that the loop over the chunks returns has an entry for each request.\<close>

lemma runChunks_counts:
  assumes "runChunks cfg api now opts m tot conc nC k chunks (p, r) = (p2, Inr r2)"
  shows "skipped r2 = skipped r
    \<and> length (successful r2) + length (failedImages r2) =
        length (successful r) + length (failedImages r) + length (concat chunks)"
  using assms
proof (induction chunks arbitrary: k p r)
  case Nil
  then show ?case by simp
next
  case (Cons chunk rest)
  let ?run = "runChunk cfg api now opts m tot (k * conc + 1) chunk p"
  from Cons.prems obtain crs where all: "promiseAll (snd ?run) = Inr crs"
    and rest: "runChunks cfg api now opts m tot conc nC (k + 1) rest
        (fst ?run, pushResults r crs) = (p2, Inr r2)"
    by (auto simp: Let_def case_prod_unfold split: option.splits sum.splits)
  have len: "length crs = length chunk"
    using promiseAll_length [OF all] by (simp add: length_runChunk)
  from Cons.IH [OF rest] pushResults_counts [of r crs] len
  show ?case by simp
qed

text \<open>The run of a request and of a chunk when the callbacks do not throw.\<close>

lemma catchRequest_quiet:
  assumes "\<And>msg. callProgress opts msg = None"
  shows "catchRequest now opts p g img err =
     (markFailed p (img_id img) (messageOf err) (now g),
      Inr (Failed (img_id img) (messageOf err)))"
  by (simp add: catchRequest_def Let_def assms)

lemma runImage_quiet:
  assumes "\<And>msg. callProgress opts msg = None"
    and "\<And>x k n. callImageStart opts x k n = None"
  shows "runImage cfg api now opts m tot p g img =
     (case executeRequest cfg api opts m g img of
        Inr result \<Rightarrow> markCompleted p (img_id img)
      | Inl err \<Rightarrow> markFailed p (img_id img) (message err) (now g),
      Inr (entryOf img (executeRequest cfg api opts m g img)))"
  by (simp add: runImage_def Let_def assms catchRequest_quiet [of opts, OF assms(1)]
      messageOf_thrownOf entryOf_def split: sum.splits)

lemma runImage_attempts:
  assumes "\<And>msg. callProgress opts msg = None"
    and "\<And>x k n. callImageStart opts x k n = None"
  shows "getFailedAttempts (fst (runImage cfg api now opts m tot p g img)) i =
     getFailedAttempts p i
     + int (length (filter (\<lambda>f. fst f = i)
         (failuresOf [entryOf img (executeRequest cfg api opts m g img)])))"
  by (auto simp: runImage_quiet [of opts, OF assms] entryOf_def getFailedAttempts_markFailed
      getFailedAttempts_markCompleted split: sum.splits)

lemma snd_runChunk:
  assumes "\<And>msg. callProgress opts msg = None"
    and "\<And>x k n. callImageStart opts x k n = None"
  shows "snd (runChunk cfg api now opts m tot g xs p) =
     map Inr (requestResults cfg api opts m g xs)"
proof (induction xs arbitrary: g p)
  case Nil
  show ?case by simp
next
  case (Cons x xs)
  have "snd (runImage cfg api now opts m tot p g x) =
      Inr (entryOf x (executeRequest cfg api opts m g x))"
    by (simp add: runImage_quiet [of opts, OF assms])
  then show ?case
    by (simp only: runChunk_Cons snd_conv Cons.IH requestResults.simps list.map)
qed

lemma length_requestResults: "length (requestResults cfg api opts m g xs) = length xs"
  by (induction xs arbitrary: g) simp_all

lemma requestResults_nth:
  "j < length xs \<Longrightarrow>
     requestResults cfg api opts m g xs ! j =
       entryOf (xs ! j) (executeRequest cfg api opts m (g + int j) (xs ! j))"
proof (induction xs arbitrary: g j)
  case Nil
  then show ?case by simp
next
  case (Cons x xs)
  show ?case
  proof (cases j)
    case 0
    then show ?thesis by simp
  next
    case (Suc k)
    then have "k < length xs" using Cons.prems by simp
    from Cons.IH [OF this, of "g + 1"] Suc show ?thesis
      by (simp add: ac_simps)
  qed
qed

lemma requestResults_append:
  "requestResults cfg api opts m g (xs @ ys) =
     requestResults cfg api opts m g xs
       @ requestResults cfg api opts m (g + int (length xs)) ys"
  by (induction xs arbitrary: g) (simp_all add: ac_simps)

lemma runChunk_attempts:
  assumes "\<And>msg. callProgress opts msg = None"
    and "\<And>x k n. callImageStart opts x k n = None"
  shows "getFailedAttempts (fst (runChunk cfg api now opts m tot g xs p)) i =
     getFailedAttempts p i
     + int (length (filter (\<lambda>f. fst f = i)
         (failuresOf (requestResults cfg api opts m g xs))))"
proof (induction xs arbitrary: g p)
  case Nil
  show ?case by simp
next
  case (Cons x xs)
  let ?p1 = "fst (runImage cfg api now opts m tot p g x)"
  have p1: "getFailedAttempts ?p1 i = getFailedAttempts p i
     + int (length (filter (\<lambda>f. fst f = i)
         (failuresOf [entryOf x (executeRequest cfg api opts m g x)])))"
    by (rule runImage_attempts [of opts, OF assms])
  have "fst (runChunk cfg api now opts m tot g (x # xs) p) =
      fst (runChunk cfg api now opts m tot (g + 1) xs ?p1)"
    by (simp only: runChunk_Cons fst_conv)
  moreover have "failuresOf (requestResults cfg api opts m g (x # xs)) =
      failuresOf [entryOf x (executeRequest cfg api opts m g x)]
        @ failuresOf (requestResults cfg api opts m (g + 1) xs)"
    by (cases "entryOf x (executeRequest cfg api opts m g x)") simp_all
  ultimately show ?case
    using Cons.IH [of "g + 1" ?p1] p1 by simp
qed

lemma runChunks_chunksOf:
  assumes "0 < n"
    and quiet: "\<And>msg. callProgress opts msg = None"
    and quiet': "\<And>x k n. callImageStart opts x k n = None"
  shows "runChunks cfg api now opts m tot (int n) nC k (chunksOf n xs) (p, r) =
     (fst (runChunk cfg api now opts m tot (k * int n + 1) xs p),
      Inr (pushResults r (requestResults cfg api opts m (k * int n + 1) xs)))"
  using assms(1)
proof (induction n xs arbitrary: k p r rule: chunksOf.induct)
  case (1 n xs)
  show ?case
  proof (cases "xs = []")
    case True
    then show ?thesis by (simp add: chunksOf_Nil)
  next
    case False
    let ?g = "k * int n + 1"
    let ?c = "take n xs"
    let ?p1 = "fst (runChunk cfg api now opts m tot ?g ?c p)"
    have step: "chunksOf n xs = ?c # chunksOf n (drop n xs)"
      using "1.prems" False by (rule chunksOf_step)
    have IH: "runChunks cfg api now opts m tot (int n) nC (k + 1) (chunksOf n (drop n xs))
        (?p1, pushResults r (requestResults cfg api opts m ?g ?c)) =
      (fst (runChunk cfg api now opts m tot ((k + 1) * int n + 1) (drop n xs) ?p1),
       Inr (pushResults (pushResults r (requestResults cfg api opts m ?g ?c))
         (requestResults cfg api opts m ((k + 1) * int n + 1) (drop n xs))))"
      using "1.prems" False by (intro "1.IH") simp_all
    have all: "promiseAll (snd (runChunk cfg api now opts m tot ?g ?c p)) =
        Inr (requestResults cfg api opts m ?g ?c)"
      by (simp only: snd_runChunk [of opts, OF quiet quiet'] promiseAll_map_Inr)
    have one: "runChunks cfg api now opts m tot (int n) nC k (chunksOf n xs) (p, r) =
        runChunks cfg api now opts m tot (int n) nC (k + 1) (chunksOf n (drop n xs))
          (?p1, pushResults r (requestResults cfg api opts m ?g ?c))"
      by (simp add: step Let_def case_prod_unfold quiet all)
    have idx: "drop n xs \<noteq> [] \<Longrightarrow> (k + 1) * int n + 1 = ?g + int (length ?c)"
      by (simp add: algebra_simps min_def)
    have a: "fst (runChunk cfg api now opts m tot ((k + 1) * int n + 1) (drop n xs) ?p1) =
        fst (runChunk cfg api now opts m tot ?g xs p)"
    proof (cases "drop n xs = []")
      case True
      then show ?thesis by simp
    next
      case ne: False
      have "fst (runChunk cfg api now opts m tot ?g (?c @ drop n xs) p) =
          fst (runChunk cfg api now opts m tot (?g + int (length ?c)) (drop n xs) ?p1)"
        by (rule fst_runChunk_append)
      then show ?thesis
        by (simp only: idx [OF ne] append_take_drop_id)
    qed
    have b: "requestResults cfg api opts m ?g ?c
          @ requestResults cfg api opts m ((k + 1) * int n + 1) (drop n xs) =
        requestResults cfg api opts m ?g xs"
    proof (cases "drop n xs = []")
      case True
      then show ?thesis by simp
    next
      case ne: False
      have "requestResults cfg api opts m ?g (?c @ drop n xs) =
          requestResults cfg api opts m ?g ?c
            @ requestResults cfg api opts m (?g + int (length ?c)) (drop n xs)"
        by (rule requestResults_append)
      then show ?thesis
        by (simp only: idx [OF ne] append_take_drop_id)
    qed
    show ?thesis
      by (simp only: one IH a pushResults_append b)
  qed
qed

lemma find_list_ex: "list_ex P xs \<Longrightarrow> \<exists>x. find P xs = Some x"
  by (induction xs) auto

lemma processResponse_image:
  assumes "returnsImage response"
  shows "snd (processResponse cfg response img) = Inr (resultFor cfg img)"
proof -
  obtain parts where parts: "response = Some parts"
    and ex: "list_ex (\<lambda>part. inlineData part \<noteq> None) parts"
    using assms by (auto simp: returnsImage_def split: option.splits)
  from find_list_ex [OF ex] obtain part
    where "find (\<lambda>part. inlineData part \<noteq> None) parts = Some part" ..
  then show ?thesis
    by (simp add: processResponse_def parts Let_def resultFor_def)
qed

lemma generateImage_first_success:
  assumes "remote 0 = Inr response" and "returnsImage response"
  shows "snd (generateImage cfg remote img cb) = Inr (resultFor cfg img)"
proof -
  obtain evs where "processResponse cfg response img = (evs, Inr (resultFor cfg img))"
    using processResponse_image [OF assms(2), of cfg img]
    by (cases "processResponse cfg response img") simp
  then have "tryBlock cfg remote img cb 0 = (ApiCall 0 # evs, Inr (resultFor cfg img))"
    using assms(1) by (simp add: tryBlock_0 tryBody_def)
  then show ?thesis
    by (simp add: generateImage_def attemptLoop.simps)
qed

lemma requestResults_all_succeed:
  assumes "\<And>g img refs n. \<exists>r. api g img refs n = Inr r \<and> returnsImage r"
  shows "requestResults cfg api opts m g xs = map (\<lambda>img. Succeeded (resultFor cfg img)) xs"
proof (induction xs arbitrary: g)
  case Nil
  show ?case by simp
next
  case (Cons x xs)
  have "executeRequest cfg api opts m g x = Inr (resultFor cfg x)"
  proof -
    let ?refs = "case m (img_id x) of None \<Rightarrow> [] | Some refs \<Rightarrow> refs"
    obtain r where "api g x ?refs 0 = Inr r" "returnsImage r"
      using assms by blast
    then show ?thesis
      by (simp add: executeRequest_def generateImage_first_success)
  qed
  then show ?case
    by (simp add: Cons.IH entryOf_def)
qed

lemma getRemaining_fresh:
  assumes "completed p = []" and "failed p = []"
  shows "getRemaining p images None = images"
  using assms by (simp add: getRemaining_def isCompleted_def getFailedAttempts_def)

text \<open>
  \<open>generateBatch\<close> when \<open>concurrency\<close> is positive, the progress file can be removed and
  no callback throws.
\<close>

lemma generateBatch_pos:
  assumes conc: "0 < (case concurrency opts of None \<Rightarrow> 5 | Some c \<Rightarrow> c)"
    and refs: "collectedRefs opts (pending now p images opts) = Inr m"
    and quiet: "\<And>msg. callProgress opts msg = None"
    and quiet': "\<And>x k n. callImageStart opts x k n = None"
    and unlink: "freshStart opts \<longrightarrow> unlinkProgressFile cfg = None"
  shows "generateBatch cfg api now p images opts =
     Some (fst (runChunk cfg api now opts m (length (pending now p images opts)) 1
                  (pending now p images opts) (startState now p opts)),
           Inr \<lparr>successful = successesOf (requestResults cfg api opts m 1 (pending now p images opts)),
                failedImages = failuresOf (requestResults cfg api opts m 1 (pending now p images opts)),
                skipped = int (length images) - int (length (pending now p images opts))\<rparr>)"
proof -
  let ?conc = "case concurrency opts of None \<Rightarrow> 5 | Some c \<Rightarrow> c"
  let ?rem = "pending now p images opts"
  let ?r0 = "\<lparr>successful = [], failedImages = [],
      skipped = int (length images) - int (length ?rem)\<rparr>"
  have n: "0 < nat ?conc" and cv: "int (nat ?conc) = ?conc"
    using conc by simp_all
  have chunks: "chunkArray ?rem ?conc = Some (chunksOf (nat ?conc) ?rem)"
    using conc by (rule chunkArray_pos)
  have run: "runChunks cfg api now opts m (length ?rem) ?conc
      (length (chunksOf (nat ?conc) ?rem)) 0 (chunksOf (nat ?conc) ?rem)
      (startState now p opts, ?r0) =
    (fst (runChunk cfg api now opts m (length ?rem) 1 ?rem (startState now p opts)),
     Inr (pushResults ?r0 (requestResults cfg api opts m 1 ?rem)))"
    using runChunks_chunksOf [of "nat ?conc" opts cfg api now m "length ?rem"
        "length (chunksOf (nat ?conc) ?rem)" 0 ?rem "startState now p opts" ?r0,
        OF n quiet quiet']
    by (simp only: cv mult_zero_left add_0)
  have un: "(if freshStart opts then unlinkProgressFile cfg else None) = None"
    using unlink by simp
  have "generateBatch cfg api now p images opts =
      Some (runChunks cfg api now opts m (length ?rem) ?conc
        (length (chunksOf (nat ?conc) ?rem)) 0 (chunksOf (nat ?conc) ?rem)
        (startState now p opts, ?r0))"
    using refs chunks
    by (simp add: generateBatch_def Let_def pending_def startState_def un quiet)
  then show ?thesis
    by (simp add: run pushResults_eq)
qed

text \<open>What every returned summary satisfies, whatever the options and the callbacks.\<close>

lemma generateBatch_summary:
  assumes "generateBatch cfg api now p images opts = Some (p', Inr s)"
  shows "skipped s = int (length images) - int (length (pending now p images opts))
    \<and> length (successful s) + length (failedImages s) = length (pending now p images opts)"
proof -
  let ?conc = "case concurrency opts of None \<Rightarrow> 5 | Some c \<Rightarrow> c"
  let ?rem = "pending now p images opts"
  let ?r0 = "\<lparr>successful = [], failedImages = [],
      skipped = int (length images) - int (length ?rem)\<rparr>"
  from assms obtain m chunks where chunks: "chunkArray ?rem ?conc = Some chunks"
    and run: "runChunks cfg api now opts m (length ?rem) ?conc (length chunks) 0 chunks
        (startState now p opts, ?r0) = (p', Inr s)"
    by (auto simp: generateBatch_def Let_def pending_def startState_def
        split: option.splits sum.splits if_splits)
  have cat: "length (concat chunks) = length ?rem"
  proof (cases "0 < ?conc")
    case True
    then have "chunks = chunksOf (nat ?conc) ?rem"
      using chunks chunkArray_pos [of ?conc ?rem] by simp
    then show ?thesis
      using True by (simp add: concat_chunksOf)
  next
    case False
    have "?rem = []"
    proof (rule ccontr)
      assume "?rem \<noteq> []"
      then have "chunkArray ?rem ?conc = None"
        using False by (intro chunkArray_nonpos) simp_all
      with chunks show False by simp
    qed
    with chunks show ?thesis by (simp add: chunkArray_Nil)
  qed
  from runChunks_counts [OF run] cat show ?thesis by simp
qed

lemma all_failed_entries:
  assumes "\<And>j. j < length rs \<Longrightarrow> \<exists>i e. rs ! j = Failed i e"
  shows "successesOf rs = [] \<and> length (failuresOf rs) = length rs"
  using assms
proof (induction rs)
  case Nil
  show ?case by simp
next
  case (Cons r rs)
  from Cons.prems [of 0] obtain i e where r: "r = Failed i e" by auto
  have "\<exists>i e. rs ! j = Failed i e" if "j < length rs" for j
    using Cons.prems [of "Suc j"] that by simp
  then have "successesOf rs = [] \<and> length (failuresOf rs) = length rs"
    by (rule Cons.IH)
  with r show ?case by simp
qed



section \<open>Claims about the progress tracker\<close>

text \<open>
  C1. For every request list \<open>R\<close>, every \<open>maxRetries\<close> \<open>k\<close> and every progress state, with
  \<open>C\<close> the set of completed ids and \<open>F\<close> the map from ids to failed attempts (an id without
  a record counting 0), \<open>getRemaining\<close> returns exactly the requests of \<open>R\<close> whose id is not
  in \<open>C\<close> and whose count in \<open>F\<close> is below \<open>k\<close>, in the order of \<open>R\<close>; a call without
  \<open>maxRetries\<close> is the call with \<open>k = 3\<close>.
\<close>

theorem getRemaining_exact:
  "getRemaining p R (Some k) =
     filter (\<lambda>r. img_id r \<notin> set (completed p) \<and> attemptsOf (attemptsMap p) (img_id r) < k) R
   \<and> getRemaining p R None = getRemaining p R (Some 3)"
proof
  show "getRemaining p R (Some k) =
     filter (\<lambda>r. img_id r \<notin> set (completed p) \<and> attemptsOf (attemptsMap p) (img_id r) < k) R"
    by (simp add: getRemaining_filter attemptsOf_attemptsMap)
  show "getRemaining p R None = getRemaining p R (Some 3)"
    by (simp add: getRemaining_def)
qed

text \<open>
  C8. From a state without a failure record for \<open>i\<close>, \<open>getFailedAttempts\<close> of \<open>i\<close> is 0, and
  after any finite sequence of calls \<open>markFailed(i, e, t)\<close> it is the number of the calls.
  The first call appends the record with \<open>attempts = 1\<close>; a call that finds a record \<open>r\<close>
  for \<open>i\<close> leaves in its place \<open>r\<close> with \<open>attempts\<close> incremented and \<open>lastError\<close> and the
  time stamp overwritten, and adds no record.
\<close>

theorem markFailed_counts_calls:
  assumes "find (\<lambda>f. f_id f = i) (failed p) = None"
  shows "getFailedAttempts p i = 0
    \<and> getFailedAttempts (foldl (\<lambda>q (e, t). markFailed q i e t) p calls) i = int (length calls)
    \<and> failed (markFailed p i e t) =
          failed p @ [\<lparr>f_id = i, attempts = 1, lastError = e, lastAttempt = t\<rparr>]
    \<and> (\<forall>q r e' t'. find (\<lambda>f. f_id f = i) (failed q) = Some r \<longrightarrow>
          find (\<lambda>f. f_id f = i) (failed (markFailed q i e' t')) =
            Some (r\<lparr>attempts := attempts r + 1, lastError := e', lastAttempt := t'\<rparr>)
          \<and> length (failed (markFailed q i e' t')) = length (failed q))"
proof -
  have zero: "getFailedAttempts p i = 0"
    using assms by (rule getFailedAttempts_no_record)
  have "getFailedAttempts (foldl (\<lambda>q (e, t). markFailed q i e t) q calls) i =
          getFailedAttempts q i + int (length calls)" for q
    by (induction calls arbitrary: q) (auto simp: getFailedAttempts_markFailed)
  then have count: "getFailedAttempts (foldl (\<lambda>q (e, t). markFailed q i e t) p calls) i =
      int (length calls)"
    using zero by simp
  have first: "failed (markFailed p i e t) =
      failed p @ [\<lparr>f_id = i, attempts = 1, lastError = e, lastAttempt = t\<rparr>]"
    using assms by (simp add: markFailed_def)
  have later: "find (\<lambda>f. f_id f = i) (failed (markFailed q i e' t')) =
            Some (r\<lparr>attempts := attempts r + 1, lastError := e', lastAttempt := t'\<rparr>)
          \<and> length (failed (markFailed q i e' t')) = length (failed q)"
    if "find (\<lambda>f. f_id f = i) (failed q) = Some r" for q r e' t'
    using that by (simp add: find_markFailed_same length_failed_markFailed)
  from zero count first later show ?thesis by blast
qed

theorem markFailed_counts_calls_witness:
  "getFailedAttempts
     (foldl (\<lambda>q (e, t). markFailed q ''b'' e t) (clear ''t0'')
        [(''503 server error'', ''t1''), (''timeout'', ''t2'')]) ''b'' = 2
   \<and> find (\<lambda>f. f_id f = ''b'') (failed (markFailed (markFailed (clear ''t0'') ''b'' ''x'' ''t1'') ''b'' ''y'' ''t2''))
       = Some \<lparr>f_id = ''b'', attempts = 2, lastError = ''y'', lastAttempt = ''t2''\<rparr>"
proof -
  have none: "find (\<lambda>f. f_id f = ''b'') (failed (clear ''t0'')) = None"
    by (simp add: clear_def)
  have some: "find (\<lambda>f. f_id f = ''b'') (failed (markFailed (clear ''t0'') ''b'' ''x'' ''t1'')) =
      Some \<lparr>f_id = ''b'', attempts = 1, lastError = ''x'', lastAttempt = ''t1''\<rparr>"
    by (simp add: clear_def markFailed_def)
  show ?thesis
    using markFailed_counts_calls [OF none,
        of "[(''503 server error'', ''t1''), (''timeout'', ''t2'')]" "''x''" "''t1''"] some
    by simp
qed

text \<open>
  C9. \<open>markCompleted\<close> is idempotent: a second call with the same id leaves the state, and
  so the list \<open>completed\<close>, as the first call left it, and the id is in the list once the
  first call has returned.
\<close>

theorem markCompleted_idempotent:
  "markCompleted (markCompleted p i) i = markCompleted p i
   \<and> completed (markCompleted (markCompleted p i) i) = completed (markCompleted p i)
   \<and> i \<in> set (completed (markCompleted p i))
   \<and> count_list (completed (markCompleted (markCompleted p i) i)) i =
       count_list (completed (markCompleted p i)) i"
proof -
  have present: "i \<in> set (completed (markCompleted p i))"
    by (simp add: markCompleted_def)
  then have same: "markCompleted (markCompleted p i) i = markCompleted p i"
    by (simp add: markCompleted_def [of "markCompleted p i"])
  from present same show ?thesis by simp
qed

text \<open>
  C10. \<open>markCompleted\<close> changes nothing but the list \<open>completed\<close>. After \<open>markFailed\<close> and
  then \<open>markCompleted\<close> of the same id, the id is in \<open>completed\<close> and still has its failure
  record, with the error and the attempts that \<open>markFailed\<close> wrote; \<open>getStats\<close> counts as
  many failures as before \<open>markCompleted\<close>, at least one; and \<open>getRemaining\<close> returns no
  request with this id, whatever \<open>maxRetries\<close> is, whereas before \<open>markCompleted\<close> it kept
  the requests with this id whenever the id was not completed and its attempts were below
  \<open>maxRetries\<close>.
\<close>

theorem markCompleted_keeps_failure_record:
  "failed (markCompleted p i) = failed p
   \<and> startedAt (markCompleted p i) = startedAt p
   \<and> i \<in> set (completed (markCompleted (markFailed p i e t) i))
   \<and> find (\<lambda>f. f_id f = i) (failed (markCompleted (markFailed p i e t) i)) =
         Some (case find (\<lambda>f. f_id f = i) (failed p) of
                 None \<Rightarrow> \<lparr>f_id = i, attempts = 1, lastError = e, lastAttempt = t\<rparr>
               | Some r \<Rightarrow> r\<lparr>attempts := attempts r + 1, lastError := e, lastAttempt := t\<rparr>)
   \<and> stats_failed (getStats (markCompleted (markFailed p i e t) i)) =
         stats_failed (getStats (markFailed p i e t))
   \<and> 1 \<le> stats_failed (getStats (markCompleted (markFailed p i e t) i))
   \<and> filter (\<lambda>img. img_id img = i)
         (getRemaining (markCompleted (markFailed p i e t) i) imgs mr) = []
   \<and> (i \<notin> set (completed p) \<and> getFailedAttempts p i + 1 < k \<longrightarrow>
         filter (\<lambda>img. img_id img = i) (getRemaining (markFailed p i e t) imgs (Some k)) =
         filter (\<lambda>img. img_id img = i) imgs)"
proof -
  let ?q = "markCompleted (markFailed p i e t) i"
  have a: "failed (markCompleted p i) = failed p" "startedAt (markCompleted p i) = startedAt p"
    by (simp_all add: markCompleted_def)
  have b: "i \<in> set (completed ?q)"
    by (simp add: markCompleted_def)
  have c: "find (\<lambda>f. f_id f = i) (failed ?q) =
         Some (case find (\<lambda>f. f_id f = i) (failed p) of
                 None \<Rightarrow> \<lparr>f_id = i, attempts = 1, lastError = e, lastAttempt = t\<rparr>
               | Some r \<Rightarrow> r\<lparr>attempts := attempts r + 1, lastError := e, lastAttempt := t\<rparr>)"
    by (simp add: failed_markCompleted find_markFailed_same)
  have d: "stats_failed (getStats ?q) = stats_failed (getStats (markFailed p i e t))"
    by (simp add: getStats_def failed_markCompleted)
  have "failed (markFailed p i e t) \<noteq> []"
    using find_markFailed_same [of i p e t] by auto
  then have e: "1 \<le> stats_failed (getStats ?q)"
    by (cases "failed (markFailed p i e t)") (simp_all add: getStats_def failed_markCompleted)
  have f: "filter (\<lambda>img. img_id img = i) (getRemaining ?q imgs mr) = []"
    using b by (auto simp: getRemaining_def isCompleted_def filter_empty_conv)
  have g: "filter (\<lambda>img. img_id img = i) (getRemaining (markFailed p i e t) imgs (Some k)) =
         filter (\<lambda>img. img_id img = i) imgs"
    if "i \<notin> set (completed p)" "getFailedAttempts p i + 1 < k"
    using that
    by (auto simp: getRemaining_filter completed_markFailed getFailedAttempts_markFailed
        intro!: filter_cong)
  from a b c d e f g show ?thesis by blast
qed

theorem markCompleted_keeps_failure_record_witness:
  "getRemaining (markFailed (clear ''t0'') ''b'' ''timeout'' ''t1'')
       [\<lparr>img_id = ''b'', title = ''B'', aspect_ratio = ''1:1'', prompt = ''p''\<rparr>] (Some 3) =
     [\<lparr>img_id = ''b'', title = ''B'', aspect_ratio = ''1:1'', prompt = ''p''\<rparr>]
   \<and> getRemaining (markCompleted (markFailed (clear ''t0'') ''b'' ''timeout'' ''t1'') ''b'')
       [\<lparr>img_id = ''b'', title = ''B'', aspect_ratio = ''1:1'', prompt = ''p''\<rparr>] (Some 3) = []
   \<and> stats_failed (getStats (markCompleted (markFailed (clear ''t0'') ''b'' ''timeout'' ''t1'') ''b'')) = 1"
proof -
  have h: "''b'' \<notin> set (completed (clear ''t0''))
      \<and> getFailedAttempts (clear ''t0'') ''b'' + 1 < 3"
    by (simp add: clear_def getFailedAttempts_def)
  show ?thesis
    using h markCompleted_keeps_failure_record [of "clear ''t0''" "''b''" "''timeout''" "''t1''"
        "[\<lparr>img_id = ''b'', title = ''B'', aspect_ratio = ''1:1'', prompt = ''p''\<rparr>]" "Some 3" 3]
    by (simp add: getStats_def markFailed_def clear_def markCompleted_def getRemaining_def
        isCompleted_def getFailedAttempts_def)
qed



section \<open>Claims about the classification and the executor\<close>

text \<open>
  C2. The errors that the claim calls retryable are those of the classes rate limit,
  server and timeout. The executor does not ask for the class: it retries when
  \<open>isRetryable\<close> finds one of its own keywords in the message. A remote call that keeps
  failing with \<open>500 Internal Server Error\<close> is classified as a server error, whose text
  says that the failure is temporary, and yet the executor makes one call, without a
  retry, a sleep or a notification, and throws; a message \<open>Request timed out\<close> is a
  timeout that \<open>isRetryable\<close> rejects as well. The schedule of the claim (three retries
  after sleeps of 1000, 2000 and 4000 milliseconds, each announced to the progress
  callback) is what the executor does for the errors that \<open>isRetryable\<close> accepts, as the
  lemma \<open>retry_schedule\<close> shows.
\<close>

theorem server_error_not_retried:
  "firstMatch (lowerMessage \<lparr>err_message = Some ''500 Internal Server Error''\<rparr>) = Server
   \<and> retryableRule Server
   \<and> \<not> isRetryable \<lparr>err_message = Some ''500 Internal Server Error''\<rparr>
   \<and> generateImage cfg alwaysServerError img cb =
       ([ApiCall 0],
        Inl (newGobananaError ''Google API server error. This is temporary - please retry.''
               (Some ''SERVER_ERROR'')))
   \<and> length (filter isApiCall (fst (generateImage cfg alwaysServerError img cb))) = 1
   \<and> firstMatch (lowerMessage \<lparr>err_message = Some ''Request timed out''\<rparr>) = Timeout
   \<and> retryableRule Timeout
   \<and> \<not> isRetryable \<lparr>err_message = Some ''Request timed out''\<rparr>"
proof -
  let ?e = "\<lparr>err_message = Some ''500 Internal Server Error''\<rparr>"
  let ?t = "\<lparr>err_message = Some ''Request timed out''\<rparr>"
  have a: "firstMatch (lowerMessage ?e) = Server"
    by (simp add: firstMatch_def keywordRules_def matchesRule_def lowerMessage_def
        toLowerCase_def lowerChar_def)
  have b: "\<not> isRetryable ?e"
    by (simp add: isRetryable_def lowerMessage_def toLowerCase_def lowerChar_def)
  have c: "parseApiError ?e (Some (img_id img)) =
      newGobananaError ''Google API server error. This is temporary - please retry.''
        (Some ''SERVER_ERROR'')"
    by (simp add: parseApiError_rules a)
  have d: "generateImage cfg alwaysServerError img cb = ([ApiCall 0],
        Inl (newGobananaError ''Google API server error. This is temporary - please retry.''
               (Some ''SERVER_ERROR'')))"
    using generateImage_not_retryable [of alwaysServerError ?e cfg img cb] b c
    by (simp add: alwaysServerError_def)
  have e: "firstMatch (lowerMessage ?t) = Timeout"
    by (simp add: firstMatch_def keywordRules_def matchesRule_def lowerMessage_def
        toLowerCase_def lowerChar_def)
  have f: "\<not> isRetryable ?t"
    by (simp add: isRetryable_def lowerMessage_def toLowerCase_def lowerChar_def)
  from a b d e f show ?thesis by simp
qed

text \<open>
  C3. The executor does not decide a retry by the class that \<open>parseApiError\<close> gives an
  error: \<open>isRetryable\<close> has keywords of its own. A message that only speaks of a quota is
  classified as a rate limit error, whose text promises an automatic retry, and yet
  \<open>isRetryable\<close> rejects it: the executor makes one call and throws. In the other
  direction, a message of a blocked request that says \<open>temporarily\<close> is classified as a
  safety block and \<open>isRetryable\<close> accepts it.
\<close>

theorem quota_error_not_retried:
  "firstMatch (lowerMessage \<lparr>err_message = Some ''Quota exceeded for this project''\<rparr>) = RateLimit
   \<and> retryableRule RateLimit
   \<and> \<not> isRetryable \<lparr>err_message = Some ''Quota exceeded for this project''\<rparr>
   \<and> generateImage cfg (\<lambda>n. Inl \<lparr>err_message = Some ''Quota exceeded for this project''\<rparr>) img cb =
       ([ApiCall 0],
        Inl (newRateLimitError
          (Some ''API rate limit exceeded. The request will be retried automatically.'')))
   \<and> firstMatch (lowerMessage \<lparr>err_message = Some ''Request blocked: temporarily unavailable''\<rparr>) = Safety
   \<and> \<not> retryableRule Safety
   \<and> isRetryable \<lparr>err_message = Some ''Request blocked: temporarily unavailable''\<rparr>"
proof -
  let ?e = "\<lparr>err_message = Some ''Quota exceeded for this project''\<rparr>"
  have a: "firstMatch (lowerMessage ?e) = RateLimit"
    by (simp add: firstMatch_def keywordRules_def matchesRule_def lowerMessage_def
        toLowerCase_def lowerChar_def)
  have b: "\<not> isRetryable ?e"
    by (simp add: isRetryable_def lowerMessage_def toLowerCase_def lowerChar_def)
  have c: "parseApiError ?e (Some (img_id img)) = newRateLimitError
          (Some ''API rate limit exceeded. The request will be retried automatically.'')"
    by (simp add: parseApiError_rules a)
  have d: "generateImage cfg (\<lambda>n. Inl ?e) img cb = ([ApiCall 0],
        Inl (newRateLimitError
          (Some ''API rate limit exceeded. The request will be retried automatically.'')))"
    using generateImage_not_retryable [of "\<lambda>n. Inl ?e" ?e cfg img cb] b c
    by simp
  have e: "firstMatch (lowerMessage \<lparr>err_message = Some ''Request blocked: temporarily unavailable''\<rparr>) = Safety"
    by (simp add: firstMatch_def keywordRules_def matchesRule_def lowerMessage_def
        toLowerCase_def lowerChar_def)
  have f: "isRetryable \<lparr>err_message = Some ''Request blocked: temporarily unavailable''\<rparr>"
    by (simp add: isRetryable_def lowerMessage_def toLowerCase_def lowerChar_def)
  from a b d e f show ?thesis by simp
qed

text \<open>
  C4, as the claim states it, fails for the empty message: it has no keyword, so the
  fallback applies, and the error carries the text \<open>Unknown error occurred\<close>, not the empty
  text of the message.
\<close>

theorem empty_message_not_preserved:
  "firstMatch (lowerMessage \<lparr>err_message = Some ''''\<rparr>) = Fallback
   \<and> message (parseApiError \<lparr>err_message = Some ''''\<rparr> None) = ''Unknown error occurred''
   \<and> parseApiError \<lparr>err_message = Some ''''\<rparr> None \<noteq> newGenerationError '''' None"
  by (simp add: parseApiError_rules lowerMessage_Some toLowerCase_def firstMatch_Nil
      newGenerationError_def)

text \<open>
  C4, amended. \<open>parseApiError\<close> lower-cases the message and applies the keyword rules in
  the order auth, rate limit, safety, malformed, server, timeout, the first rule with a
  keyword in the message deciding, and the fallback when no rule has one: it returns the
  error of \<open>firstMatch\<close>, built from the message, or from the text \<open>Unknown error
  occurred\<close> when the message is empty or missing. So \<open>429 quota exceeded\<close> gives the rate
  limit error, \<open>401 unauthorized\<close> and \<open>429 Unauthorized\<close> give the API key error, and a
  message that is not empty and has no keyword gives the generation error with the text of
  the message.
\<close>

theorem parseApiError_first_match_wins:
  "lowerMessage \<lparr>err_message = Some m\<rparr> = toLowerCase m
   \<and> parseApiError \<lparr>err_message = Some m\<rparr> i =
       errorOfRule (firstMatch (toLowerCase m))
         (if m = [] then ''Unknown error occurred'' else m) i
   \<and> parseApiError \<lparr>err_message = None\<rparr> i = newGenerationError ''Unknown error occurred'' i
   \<and> parseApiError \<lparr>err_message = Some ''429 quota exceeded''\<rparr> i =
       newRateLimitError
         (Some ''API rate limit exceeded. The request will be retried automatically.'')
   \<and> parseApiError \<lparr>err_message = Some ''401 unauthorized''\<rparr> i =
       newApiKeyError (Some ''Invalid or expired API key'')
   \<and> parseApiError \<lparr>err_message = Some ''429 Unauthorized''\<rparr> i =
       newApiKeyError (Some ''Invalid or expired API key'')
   \<and> (firstMatch (toLowerCase m) = Fallback \<and> m \<noteq> [] \<longrightarrow>
       parseApiError \<lparr>err_message = Some m\<rparr> i = newGenerationError m i)"
proof -
  have gen: "parseApiError \<lparr>err_message = Some m\<rparr> i =
       errorOfRule (firstMatch (toLowerCase m))
         (if m = [] then ''Unknown error occurred'' else m) i"
  proof (cases "firstMatch (toLowerCase m)")
    case Malformed
    then have "m \<noteq> []"
      using firstMatch_Nil by (auto simp: toLowerCase_def)
    with Malformed show ?thesis
      by (simp add: parseApiError_rules lowerMessage_Some)
  qed (simp_all add: parseApiError_rules lowerMessage_Some)
  have none: "parseApiError \<lparr>err_message = None\<rparr> i =
      newGenerationError ''Unknown error occurred'' i"
    by (simp add: parseApiError_rules lowerMessage_None firstMatch_Nil)
  have ex1: "parseApiError \<lparr>err_message = Some ''429 quota exceeded''\<rparr> i =
       newRateLimitError
         (Some ''API rate limit exceeded. The request will be retried automatically.'')"
    by (simp add: parseApiError_def lowerMessage_def toLowerCase_def lowerChar_def)
  have ex2: "parseApiError \<lparr>err_message = Some ''401 unauthorized''\<rparr> i =
       newApiKeyError (Some ''Invalid or expired API key'')"
    by (simp add: parseApiError_def lowerMessage_def toLowerCase_def lowerChar_def)
  have ex3: "parseApiError \<lparr>err_message = Some ''429 Unauthorized''\<rparr> i =
       newApiKeyError (Some ''Invalid or expired API key'')"
    by (simp add: parseApiError_def lowerMessage_def toLowerCase_def lowerChar_def)
  have fb: "parseApiError \<lparr>err_message = Some m\<rparr> i = newGenerationError m i"
    if "firstMatch (toLowerCase m) = Fallback" "m \<noteq> []"
    using that gen by simp
  from gen none ex1 ex2 ex3 fb show ?thesis
    by (simp add: lowerMessage_Some)
qed

theorem parseApiError_first_match_wins_witness:
  "parseApiError \<lparr>err_message = Some ''Something odd happened''\<rparr> (Some ''a'') =
     newGenerationError ''Something odd happened'' (Some ''a'')"
proof -
  have "firstMatch (toLowerCase ''Something odd happened'') = Fallback \<and> ''Something odd happened'' \<noteq> []"
    by (simp add: firstMatch_def keywordRules_def matchesRule_def toLowerCase_def lowerChar_def)
  then show ?thesis
    using parseApiError_first_match_wins [of "''Something odd happened''" "Some ''a''"]
    by blast
qed

section \<open>Claims about the batch orchestrator\<close>

text \<open>
  C7. For a positive \<open>n\<close>, \<open>chunkArray\<close> returns, and its chunks concatenated in their
  order are the list; no chunk is empty or longer than \<open>n\<close>, and every chunk but the last
  has exactly \<open>n\<close> elements.
\<close>

theorem chunkArray_partition:
  assumes "0 < n"
  shows "\<exists>chunks. chunkArray xs n = Some chunks
    \<and> concat chunks = xs
    \<and> (\<forall>c \<in> set chunks. c \<noteq> [] \<and> int (length c) \<le> n)
    \<and> (\<forall>c \<in> set (butlast chunks). int (length c) = n)"
proof -
  have pos: "0 < nat n" using assms by simp
  have "chunkArray xs n = Some (chunksOf (nat n) xs)"
    using assms by (rule chunkArray_pos)
  moreover have "concat (chunksOf (nat n) xs) = xs"
    using pos by (rule concat_chunksOf)
  moreover have "\<forall>c \<in> set (chunksOf (nat n) xs). c \<noteq> [] \<and> int (length c) \<le> n"
  proof
    fix c
    assume "c \<in> set (chunksOf (nat n) xs)"
    then have "c \<noteq> [] \<and> length c \<le> nat n"
      by (rule chunksOf_sizes [OF pos])
    then show "c \<noteq> [] \<and> int (length c) \<le> n"
      using assms by linarith
  qed
  moreover have "\<forall>c \<in> set (butlast (chunksOf (nat n) xs)). int (length c) = n"
  proof
    fix c
    assume "c \<in> set (butlast (chunksOf (nat n) xs))"
    then have "length c = nat n"
      by (rule chunksOf_full [OF pos])
    then show "int (length c) = n"
      using assms by simp
  qed
  ultimately show ?thesis by blast
qed

theorem chunkArray_partition_witness:
  "chunkArray [1, 2, 3, 4, 5 :: nat] 2 = Some [[1, 2], [3, 4], [5]]
   \<and> (\<exists>chunks. chunkArray [1, 2, 3, 4, 5 :: nat] 2 = Some chunks
        \<and> concat chunks = [1, 2, 3, 4, 5])"
proof -
  have "chunkArray [1, 2, 3, 4, 5 :: nat] 2 = Some [[1, 2], [3, 4], [5]]"
    by (simp add: chunkArray_def chunkLoop.simps slice_def)
  moreover have "\<exists>chunks. chunkArray [1, 2, 3, 4, 5 :: nat] 2 = Some chunks
        \<and> concat chunks = [1, 2, 3, 4, 5]"
    using chunkArray_partition [of 2 "[1, 2, 3, 4, 5 :: nat]"] by auto
  ultimately show ?thesis by blast
qed

text \<open>
  C5, as the claim states it, fails at several kinds of options. With \<open>concurrency = 0\<close>
  and a request to process, the loop of \<open>chunkArray\<close> never ends, so \<open>generateBatch\<close>
  returns no summary. A \<open>getReferenceImages\<close>, an \<open>onProgress\<close> or an \<open>onImageStart\<close> that
  throws is called outside every \<open>try\<close>, and \<open>generateBatch\<close> throws the same error. With
  \<open>freshStart\<close> and a progress file that cannot be removed, \<open>clear\<close> throws and so does
  \<open>generateBatch\<close>. In all of these the remote service would return an image for every
  request.
\<close>

theorem generateBatch_not_always_a_summary:
  "generateBatch exampleConfig alwaysImage fixedClock (clear ''t0'') [imageA]
      (defaultOptions\<lparr>concurrency := Some 0\<rparr>) = None
   \<and> generateBatch exampleConfig alwaysImage fixedClock (clear ''t0'') [imageA]
      (defaultOptions\<lparr>getReferenceImages := Some abortedCollector\<rparr>) =
     Some (clear ''t0'', Inl \<lparr>err_message = Some ''User force closed the prompt''\<rparr>)
   \<and> generateBatch exampleConfig alwaysImage fixedClock (clear ''t0'') [imageA]
      (defaultOptions\<lparr>onProgress := Some brokenProgress\<rparr>) =
     Some (clear ''t0'', Inl \<lparr>err_message = Some ''write EPIPE''\<rparr>)
   \<and> generateBatch exampleConfig alwaysImage fixedClock (clear ''t0'') [imageA]
      (defaultOptions\<lparr>onImageStart := Some brokenImageStart\<rparr>) =
     Some (clear ''t0'', Inl \<lparr>err_message = Some ''write EPIPE''\<rparr>)
   \<and> generateBatch lockedConfig alwaysImage fixedClock (clear ''t0'') [imageA]
      (defaultOptions\<lparr>freshStart := True\<rparr>) =
     Some (clear (fixedClock 0),
           Inl \<lparr>err_message = Some ''EPERM: operation not permitted, unlink''\<rparr>)"
proof (intro conjI)
  have rem: "getRemaining (clear ''t0'') [imageA] None = [imageA]"
    by (simp add: getRemaining_fresh clear_def)
  have zero: "chunkArray [imageA] 0 = None"
    by (rule chunkArray_nonpos) simp_all
  have five: "chunkArray [imageA] 5 = Some [[imageA]]"
    by (simp add: chunkArray_def chunkLoop.simps slice_def)
  show "generateBatch exampleConfig alwaysImage fixedClock (clear ''t0'') [imageA]
      (defaultOptions\<lparr>concurrency := Some 0\<rparr>) = None"
    by (simp add: generateBatch_def Let_def rem zero defaultOptions_def callProgress_def
        collectedRefs_def)
  show "generateBatch exampleConfig alwaysImage fixedClock (clear ''t0'') [imageA]
      (defaultOptions\<lparr>getReferenceImages := Some abortedCollector\<rparr>) =
     Some (clear ''t0'', Inl \<lparr>err_message = Some ''User force closed the prompt''\<rparr>)"
    by (simp add: generateBatch_def Let_def rem defaultOptions_def callProgress_def
        callImageStart_def collectedRefs_def abortedCollector_def)
  show "generateBatch exampleConfig alwaysImage fixedClock (clear ''t0'') [imageA]
      (defaultOptions\<lparr>onProgress := Some brokenProgress\<rparr>) =
     Some (clear ''t0'', Inl \<lparr>err_message = Some ''write EPIPE''\<rparr>)"
    by (simp add: generateBatch_def Let_def rem defaultOptions_def callProgress_def
        brokenProgress_def)
  show "generateBatch exampleConfig alwaysImage fixedClock (clear ''t0'') [imageA]
      (defaultOptions\<lparr>onImageStart := Some brokenImageStart\<rparr>) =
     Some (clear ''t0'', Inl \<lparr>err_message = Some ''write EPIPE''\<rparr>)"
    by (simp add: generateBatch_def Let_def rem five defaultOptions_def callProgress_def
        callImageStart_def collectedRefs_def runImage_def brokenImageStart_def)
  show "generateBatch lockedConfig alwaysImage fixedClock (clear ''t0'') [imageA]
      (defaultOptions\<lparr>freshStart := True\<rparr>) =
     Some (clear (fixedClock 0),
           Inl \<lparr>err_message = Some ''EPERM: operation not permitted, unlink''\<rparr>)"
    by (simp add: generateBatch_def Let_def defaultOptions_def lockedConfig_def
        exampleConfig_def)
qed

text \<open>
  C5, amended. With a positive \<open>concurrency\<close>, callbacks \<open>onProgress\<close> and \<open>onImageStart\<close>
  that do not throw, reference images collected without an error and, under
  \<open>freshStart\<close>, a progress file that can be removed, \<open>generateBatch\<close> returns a summary,
  whatever the requests do. The entries of the remaining requests are in the order of
  the requests, each the outcome of the execution of its own request; the summary lists
  the results of the succeeded ones in \<open>successful\<close> and the id and the message of the
  failed ones in \<open>failed\<close>; the tracker counts one more failed attempt of an id for each
  failure of the summary with that id; and when every request fails, \<open>successful\<close> is
  empty and \<open>failed\<close> has an entry for every remaining request.
\<close>

theorem generateBatch_isolates_failures:
  assumes conc: "0 < (case concurrency opts of None \<Rightarrow> 5 | Some c \<Rightarrow> c)"
    and refs: "collectedRefs opts (pending now p images opts) = Inr m"
    and quiet: "\<And>msg. callProgress opts msg = None"
    and quiet': "\<And>x k n. callImageStart opts x k n = None"
    and unlink: "freshStart opts \<longrightarrow> unlinkProgressFile cfg = None"
  shows "\<exists>p' s. generateBatch cfg api now p images opts = Some (p', Inr s)
    \<and> successful s = successesOf (requestResults cfg api opts m 1 (pending now p images opts))
    \<and> failedImages s = failuresOf (requestResults cfg api opts m 1 (pending now p images opts))
    \<and> length (requestResults cfg api opts m 1 (pending now p images opts)) =
        length (pending now p images opts)
    \<and> (\<forall>j < length (pending now p images opts).
          requestResults cfg api opts m 1 (pending now p images opts) ! j =
            entryOf (pending now p images opts ! j)
              (executeRequest cfg api opts m (1 + int j) (pending now p images opts ! j)))
    \<and> (\<forall>i. getFailedAttempts p' i =
          getFailedAttempts (startState now p opts) i
          + int (length (filter (\<lambda>f. fst f = i) (failedImages s))))
    \<and> ((\<forall>j < length (pending now p images opts).
           \<exists>e. executeRequest cfg api opts m (1 + int j) (pending now p images opts ! j) = Inl e)
         \<longrightarrow> successful s = []
             \<and> length (failedImages s) = length (pending now p images opts))"
proof -
  let ?rem = "pending now p images opts"
  let ?rr = "requestResults cfg api opts m 1 ?rem"
  let ?p' = "fst (runChunk cfg api now opts m (length ?rem) 1 ?rem (startState now p opts))"
  let ?s = "\<lparr>successful = successesOf ?rr, failedImages = failuresOf ?rr,
             skipped = int (length images) - int (length ?rem)\<rparr>"
  have ret: "generateBatch cfg api now p images opts = Some (?p', Inr ?s)"
    using conc refs quiet quiet' unlink by (rule generateBatch_pos)
  have len: "length ?rr = length ?rem"
    by (rule length_requestResults)
  have nth: "?rr ! j = entryOf (?rem ! j) (executeRequest cfg api opts m (1 + int j) (?rem ! j))"
    if "j < length ?rem" for j
    using that by (rule requestResults_nth)
  have rec: "getFailedAttempts ?p' i =
      getFailedAttempts (startState now p opts) i
      + int (length (filter (\<lambda>f. fst f = i) (failedImages ?s)))" for i
    by (simp add: runChunk_attempts [of opts, OF quiet quiet'])
  have allfail: "successful ?s = [] \<and> length (failedImages ?s) = length ?rem"
    if every: "\<forall>j < length ?rem.
        \<exists>e. executeRequest cfg api opts m (1 + int j) (?rem ! j) = Inl e"
  proof -
    have "\<exists>i e. ?rr ! j = Failed i e" if "j < length ?rr" for j
    proof -
      from that len have j: "j < length ?rem" by simp
      with every obtain e
        where "executeRequest cfg api opts m (1 + int j) (?rem ! j) = Inl e" by blast
      with nth [OF j] show ?thesis by (simp add: entryOf_def)
    qed
    then have "successesOf ?rr = [] \<and> length (failuresOf ?rr) = length ?rr"
      by (rule all_failed_entries)
    with len show ?thesis by simp
  qed
  show ?thesis
  proof (intro exI conjI)
    show "generateBatch cfg api now p images opts = Some (?p', Inr ?s)" by (rule ret)
    show "successful ?s = successesOf ?rr" by simp
    show "failedImages ?s = failuresOf ?rr" by simp
    show "length ?rr = length ?rem" by (rule len)
    show "\<forall>j < length ?rem.
        ?rr ! j = entryOf (?rem ! j) (executeRequest cfg api opts m (1 + int j) (?rem ! j))"
      using nth by blast
    show "\<forall>i. getFailedAttempts ?p' i =
        getFailedAttempts (startState now p opts) i
        + int (length (filter (\<lambda>f. fst f = i) (failedImages ?s)))"
      using rec by blast
    show "(\<forall>j < length ?rem.
        \<exists>e. executeRequest cfg api opts m (1 + int j) (?rem ! j) = Inl e)
      \<longrightarrow> successful ?s = [] \<and> length (failedImages ?s) = length ?rem"
      using allfail by blast
  qed
qed

theorem generateBatch_isolates_failures_witness:
  "\<exists>p' s. generateBatch exampleConfig alwaysUnauthorized fixedClock (clear ''t0'')
        [imageA, imageB]
        (defaultOptions\<lparr>concurrency := Some 1, onProgress := Some quietProgress\<rparr>) =
          Some (p', Inr s)
     \<and> successful s = []
     \<and> failedImages s =
         [(''a'', ''Invalid or expired API key''), (''b'', ''Invalid or expired API key'')]
     \<and> getFailedAttempts p' ''a'' = 1 \<and> getFailedAttempts p' ''b'' = 1"
proof -
  let ?opts = "defaultOptions\<lparr>concurrency := Some 1, onProgress := Some quietProgress\<rparr>"
  let ?e = "\<lparr>err_message = Some ''401 Unauthorized''\<rparr>"
  have conc: "0 < (case concurrency ?opts of None \<Rightarrow> 5 | Some c \<Rightarrow> c)"
    by (simp add: defaultOptions_def)
  have rem: "pending fixedClock (clear ''t0'') [imageA, imageB] ?opts = [imageA, imageB]"
    by (simp add: pending_def startState_def defaultOptions_def getRemaining_fresh clear_def)
  have refs: "collectedRefs ?opts (pending fixedClock (clear ''t0'') [imageA, imageB] ?opts)
      = Inr Map.empty"
    by (simp add: collectedRefs_def defaultOptions_def)
  have quiet: "callProgress ?opts msg = None" for msg
    by (simp add: callProgress_def defaultOptions_def quietProgress_def)
  have quiet': "callImageStart ?opts x k n = None" for x k n
    by (simp add: callImageStart_def defaultOptions_def)
  have unlink: "freshStart ?opts \<longrightarrow> unlinkProgressFile exampleConfig = None"
    by (simp add: defaultOptions_def)
  have nr: "\<not> isRetryable ?e"
    by (simp add: isRetryable_def lowerMessage_def toLowerCase_def lowerChar_def)
  have cl: "parseApiError ?e i = newApiKeyError (Some ''Invalid or expired API key'')" for i
    by (simp add: parseApiError_def lowerMessage_def toLowerCase_def lowerChar_def)
  have ex: "executeRequest exampleConfig alwaysUnauthorized ?opts Map.empty g img =
      Inl (newApiKeyError (Some ''Invalid or expired API key''))" for g img
    using generateImage_not_retryable [of "alwaysUnauthorized g img []" ?e exampleConfig img] nr
    by (simp add: executeRequest_def alwaysUnauthorized_def cl)
  have rr: "requestResults exampleConfig alwaysUnauthorized ?opts Map.empty 1 [imageA, imageB] =
      [Failed ''a'' ''Invalid or expired API key'', Failed ''b'' ''Invalid or expired API key'']"
    by (simp add: ex entryOf_def newApiKeyError_def imageA_def imageB_def)
  have st: "getFailedAttempts (startState fixedClock (clear ''t0'') ?opts) i = 0" for i
    by (simp add: startState_def defaultOptions_def clear_def getFailedAttempts_def)
  from generateBatch_isolates_failures [OF conc refs quiet quiet' unlink,
      of alwaysUnauthorized]
  obtain p' s where
    "generateBatch exampleConfig alwaysUnauthorized fixedClock (clear ''t0'')
        [imageA, imageB] ?opts = Some (p', Inr s)"
    and "successful s = successesOf (requestResults exampleConfig alwaysUnauthorized ?opts
        Map.empty 1 (pending fixedClock (clear ''t0'') [imageA, imageB] ?opts))"
    and "failedImages s = failuresOf (requestResults exampleConfig alwaysUnauthorized ?opts
        Map.empty 1 (pending fixedClock (clear ''t0'') [imageA, imageB] ?opts))"
    and "\<forall>i. getFailedAttempts p' i =
          getFailedAttempts (startState fixedClock (clear ''t0'') ?opts) i
          + int (length (filter (\<lambda>f. fst f = i) (failedImages s)))"
    by blast
  then have "generateBatch exampleConfig alwaysUnauthorized fixedClock (clear ''t0'')
        [imageA, imageB] ?opts = Some (p', Inr s)
    \<and> successful s = successesOf
        [Failed ''a'' ''Invalid or expired API key'', Failed ''b'' ''Invalid or expired API key'']
    \<and> failedImages s = failuresOf
        [Failed ''a'' ''Invalid or expired API key'', Failed ''b'' ''Invalid or expired API key'']
    \<and> (\<forall>i. getFailedAttempts p' i =
          0 + int (length (filter (\<lambda>f. fst f = i) (failedImages s))))"
    by (simp only: rem rr st simp_thms)
  then show ?thesis
    by simp
qed

text \<open>
  C6. Every summary that \<open>generateBatch\<close> returns has \<open>skipped\<close> equal to the number of
  requests minus the number of remaining requests (\<open>getRemaining\<close> on the tracker state
  after the optional \<open>clear\<close>), and its \<open>successful\<close> and \<open>failed\<close> lists have together as many
  entries as there are remaining requests. With no prior progress, a positive
  \<open>concurrency\<close>, reference images collected without an error, callbacks that do not
  throw, a progress file that \<open>freshStart\<close> can remove and a remote service that always
  returns an image, a run on three requests returns a summary with three successes, no
  failure and \<open>skipped = 0\<close>.
\<close>

theorem batch_summary_counts:
  "(generateBatch cfg api now p images opts = Some (p', Inr s) \<longrightarrow>
      skipped s = int (length images) - int (length (pending now p images opts))
      \<and> length (successful s) + length (failedImages s) = length (pending now p images opts))
   \<and> (completed p = [] \<and> failed p = []
       \<and> 0 < (case concurrency opts of None \<Rightarrow> 5 | Some c \<Rightarrow> c)
       \<and> collectedRefs opts [a, b, c] = Inr m
       \<and> (\<forall>msg. callProgress opts msg = None)
       \<and> (\<forall>x k n. callImageStart opts x k n = None)
       \<and> (freshStart opts \<longrightarrow> unlinkProgressFile cfg = None)
       \<and> (\<forall>g img refs n. \<exists>r. api g img refs n = Inr r \<and> returnsImage r) \<longrightarrow>
      (\<exists>q t. generateBatch cfg api now p [a, b, c] opts = Some (q, Inr t)
         \<and> successful t = [resultFor cfg a, resultFor cfg b, resultFor cfg c]
         \<and> length (successful t) = 3 \<and> failedImages t = [] \<and> skipped t = 0))"
proof (intro conjI impI)
  assume "generateBatch cfg api now p images opts = Some (p', Inr s)"
  then show "skipped s = int (length images) - int (length (pending now p images opts))"
    and "length (successful s) + length (failedImages s) = length (pending now p images opts)"
    using generateBatch_summary by blast+
next
  assume h: "completed p = [] \<and> failed p = []
       \<and> 0 < (case concurrency opts of None \<Rightarrow> 5 | Some c \<Rightarrow> c)
       \<and> collectedRefs opts [a, b, c] = Inr m
       \<and> (\<forall>msg. callProgress opts msg = None)
       \<and> (\<forall>x k n. callImageStart opts x k n = None)
       \<and> (freshStart opts \<longrightarrow> unlinkProgressFile cfg = None)
       \<and> (\<forall>g img refs n. \<exists>r. api g img refs n = Inr r \<and> returnsImage r)"
  have start: "completed (startState now p opts) = [] \<and> failed (startState now p opts) = []"
    using h by (simp add: startState_def clear_def)
  then have rem: "pending now p [a, b, c] opts = [a, b, c]"
    by (simp add: pending_def getRemaining_fresh)
  have rr: "requestResults cfg api opts m 1 [a, b, c] =
      map (\<lambda>img. Succeeded (resultFor cfg img)) [a, b, c]"
    using h by (intro requestResults_all_succeed) blast
  have gb: "generateBatch cfg api now p [a, b, c] opts =
     Some (fst (runChunk cfg api now opts m (length (pending now p [a, b, c] opts)) 1
                  (pending now p [a, b, c] opts) (startState now p opts)),
           Inr \<lparr>successful = successesOf (requestResults cfg api opts m 1 (pending now p [a, b, c] opts)),
                failedImages = failuresOf (requestResults cfg api opts m 1 (pending now p [a, b, c] opts)),
                skipped = int (length [a, b, c]) - int (length (pending now p [a, b, c] opts))\<rparr>)"
    using h by (intro generateBatch_pos) (simp_all add: rem)
  have s1: "successesOf (requestResults cfg api opts m 1 (pending now p [a, b, c] opts)) =
      [resultFor cfg a, resultFor cfg b, resultFor cfg c]"
    by (simp only: rem rr list.map successesOf.simps)
  have s2: "failuresOf (requestResults cfg api opts m 1 (pending now p [a, b, c] opts)) = []"
    by (simp only: rem rr list.map failuresOf.simps)
  have s3: "int (length [a, b, c]) - int (length (pending now p [a, b, c] opts)) = 0"
    by (simp add: rem)
  from gb [unfolded s1 s2 s3]
  show "\<exists>q t. generateBatch cfg api now p [a, b, c] opts = Some (q, Inr t)
         \<and> successful t = [resultFor cfg a, resultFor cfg b, resultFor cfg c]
         \<and> length (successful t) = 3 \<and> failedImages t = [] \<and> skipped t = 0"
    by simp
qed

theorem batch_summary_counts_witness:
  "\<exists>q t. generateBatch exampleConfig alwaysImage fixedClock (clear ''t0'')
        [imageA, imageB, imageC] defaultOptions = Some (q, Inr t)
     \<and> successful t =
         [resultFor exampleConfig imageA, resultFor exampleConfig imageB,
          resultFor exampleConfig imageC]
     \<and> length (successful t) = 3 \<and> failedImages t = [] \<and> skipped t = 0
     \<and> skipped t = int (length [imageA, imageB, imageC])
           - int (length (pending fixedClock (clear ''t0'') [imageA, imageB, imageC] defaultOptions))
     \<and> length (successful t) + length (failedImages t) =
         length (pending fixedClock (clear ''t0'') [imageA, imageB, imageC] defaultOptions)"
proof -
  have h: "completed (clear ''t0'') = [] \<and> failed (clear ''t0'') = []
       \<and> 0 < (case concurrency defaultOptions of None \<Rightarrow> 5 | Some c \<Rightarrow> c)
       \<and> collectedRefs defaultOptions [imageA, imageB, imageC] = Inr Map.empty
       \<and> (\<forall>msg. callProgress defaultOptions msg = None)
       \<and> (\<forall>x k n. callImageStart defaultOptions x k n = None)
       \<and> (freshStart defaultOptions \<longrightarrow> unlinkProgressFile exampleConfig = None)
       \<and> (\<forall>g img refs n. \<exists>r. alwaysImage g img refs n = Inr r \<and> returnsImage r)"
    by (simp add: clear_def defaultOptions_def collectedRefs_def alwaysImage_def returnsImage_def
        callProgress_def callImageStart_def)
  have "\<exists>q t. generateBatch exampleConfig alwaysImage fixedClock (clear ''t0'')
        [imageA, imageB, imageC] defaultOptions = Some (q, Inr t)
     \<and> successful t =
         [resultFor exampleConfig imageA, resultFor exampleConfig imageB,
          resultFor exampleConfig imageC]
     \<and> length (successful t) = 3 \<and> failedImages t = [] \<and> skipped t = 0"
    by (rule batch_summary_counts [THEN conjunct2, THEN mp, OF h])
  then obtain q t where run: "generateBatch exampleConfig alwaysImage fixedClock (clear ''t0'')
        [imageA, imageB, imageC] defaultOptions = Some (q, Inr t)"
    and res: "successful t =
         [resultFor exampleConfig imageA, resultFor exampleConfig imageB,
          resultFor exampleConfig imageC]"
      "length (successful t) = 3" "failedImages t = []" "skipped t = 0"
    by blast
  have "skipped t = int (length [imageA, imageB, imageC])
           - int (length (pending fixedClock (clear ''t0'') [imageA, imageB, imageC] defaultOptions))
     \<and> length (successful t) + length (failedImages t) =
         length (pending fixedClock (clear ''t0'') [imageA, imageB, imageC] defaultOptions)"
    by (rule batch_summary_counts [THEN conjunct1, THEN mp, OF run])
  with run res show ?thesis by blast
qed

text \<open>
  Two runs of the model, computed: two requests that succeed, and a request whose
  success \<open>onProgress\<close> cannot report, so that the \<open>catch\<close> records the completed request as
  failed as well.
\<close>

lemma generateBatch_example_run:
  "generateBatch exampleConfig alwaysImage fixedClock (clear ''t0'')
        [imageA, imageB] defaultOptions =
     Some (\<lparr>completed = [''a'', ''b''], failed = [], startedAt = ''t0''\<rparr>,
           Inr \<lparr>successful =
                  [\<lparr>success = True, filepath = ''output/a.png'', res_imageId = ''a'',
                    filename = ''a.png''\<rparr>,
                   \<lparr>success = True, filepath = ''output/b.png'', res_imageId = ''b'',
                    filename = ''b.png''\<rparr>],
                failedImages = [], skipped = 0\<rparr>)"
  by code_simp

lemma generateBatch_example_unreported:
  "generateBatch exampleConfig alwaysImage fixedClock (clear ''t0'') [imageA]
        (defaultOptions\<lparr>onProgress := Some failsOnCompleted\<rparr>) =
     Some (\<lparr>completed = [''a''],
            failed = [\<lparr>f_id = ''a'', attempts = 1, lastError = ''write EPIPE'',
                       lastAttempt = ''2025-01-01T00:00:00.000Z''\<rparr>],
            startedAt = ''t0''\<rparr>,
           Inr \<lparr>successful = [], failedImages = [(''a'', ''write EPIPE'')], skipped = 0\<rparr>)"
  by code_simp

end
